theory Spec2Isabelle
  imports Main
begin

section \<open>Data model (src/client/types.ts)\<close>

text \<open>
  An optional JavaScript value. The source distinguishes \<^verbatim>\<open>undefined\<close> from
  \<^verbatim>\<open>null\<close> (strict comparison \<^verbatim>\<open>!==\<close> tells them apart), so both are kept.
\<close>

datatype 'a maybe = Undefined | Null | Val 'a

record UserPlan =
  plan_id :: string
  nickname :: "string maybe"
  plan_status :: string
  currentPeriodEnd :: "string maybe"

record UserUsage =
  used :: int
  usage_limit :: "int maybe"
  resetsAt :: "string maybe"

record UserStatus =
  extensionUserId :: string
  paid :: bool
  plan :: "UserPlan maybe"
  usage :: "UserUsage maybe"

record StatusDiff =
  entitlementChanged :: bool
  planChanged :: bool
  usageChanged :: bool

record CachedStatus =
  status :: UserStatus
  fetchedAt :: int

section \<open>Status diff (src/core/diff.ts)\<close>

definition computeEntitlementChanged :: "UserStatus option \<Rightarrow> UserStatus \<Rightarrow> bool" where
  "computeEntitlementChanged prev next =
     (case prev of
        None \<Rightarrow> True
      | Some p \<Rightarrow> paid p \<noteq> paid next)"

definition computePlanChanged :: "UserStatus option \<Rightarrow> UserStatus \<Rightarrow> bool" where
  "computePlanChanged prev next =
     (case prev of
        None \<Rightarrow> plan next \<noteq> Undefined \<and> plan next \<noteq> Null
      | Some p \<Rightarrow>
          (let prevPlan = plan p; nextPlan = plan next in
           if (prevPlan = Undefined \<or> prevPlan = Null) \<and> (nextPlan = Undefined \<or> nextPlan = Null)
           then False
           else if prevPlan = Undefined \<or> prevPlan = Null \<or> nextPlan = Undefined \<or> nextPlan = Null
           then True
           else (case (prevPlan, nextPlan) of
                   (Val a, Val b) \<Rightarrow>
                     plan_id a \<noteq> plan_id b \<or>
                     nickname a \<noteq> nickname b \<or>
                     plan_status a \<noteq> plan_status b \<or>
                     currentPeriodEnd a \<noteq> currentPeriodEnd b
                 | _ \<Rightarrow> True)))"

definition computeUsageChanged :: "UserStatus option \<Rightarrow> UserStatus \<Rightarrow> bool" where
  "computeUsageChanged prev next =
     (case prev of
        None \<Rightarrow> usage next \<noteq> Undefined \<and> usage next \<noteq> Null
      | Some p \<Rightarrow>
          (let prevUsage = usage p; nextUsage = usage next in
           if (prevUsage = Undefined \<or> prevUsage = Null) \<and> (nextUsage = Undefined \<or> nextUsage = Null)
           then False
           else if prevUsage = Undefined \<or> prevUsage = Null \<or> nextUsage = Undefined \<or> nextUsage = Null
           then True
           else (case (prevUsage, nextUsage) of
                   (Val a, Val b) \<Rightarrow>
                     used a \<noteq> used b \<or>
                     usage_limit a \<noteq> usage_limit b \<or>
                     resetsAt a \<noteq> resetsAt b
                 | _ \<Rightarrow> True)))"

definition computeStatusDiff :: "UserStatus option \<Rightarrow> UserStatus \<Rightarrow> StatusDiff" where
  "computeStatusDiff prev next =
     \<lparr> entitlementChanged = computeEntitlementChanged prev next,
       planChanged = computePlanChanged prev next,
       usageChanged = computeUsageChanged prev next \<rparr>"

definition hasAnyChange :: "StatusDiff \<Rightarrow> bool" where
  "hasAnyChange diff = (entitlementChanged diff \<or> planChanged diff \<or> usageChanged diff)"

definition areStatusesEqual :: "UserStatus option \<Rightarrow> UserStatus option \<Rightarrow> bool" where
  "areStatusesEqual a b =
     (case (a, b) of
        (None, None) \<Rightarrow> True
      | (None, Some _) \<Rightarrow> False
      | (Some _, None) \<Rightarrow> False
      | (Some x, Some y) \<Rightarrow> \<not> hasAnyChange (computeStatusDiff (Some x) y))"

section \<open>Errors (core/errors)\<close>

datatype BillingExtensionsError =
    ConfigError string
  | RuntimeError string
  | NetworkError string
  | Unauthorized string
  | ApiError int "string maybe" string

text \<open>
  A thrown JavaScript value: an SDK error, an \<^verbatim>\<open>Error\<close> object (name, message),
  a string, or anything else.
\<close>

datatype thrown =
    Sdk BillingExtensionsError
  | JsError string string
  | JsString string
  | JsOther

definition includes_str :: "string \<Rightarrow> string \<Rightarrow> bool" where
  "includes_str s sub = list_ex (\<lambda>i. take (length sub) (drop i s) = sub) [0..<Suc (length s)]"

definition normalizeError :: "thrown \<Rightarrow> BillingExtensionsError" where
  "normalizeError error =
     (case error of
        Sdk e \<Rightarrow> e
      | JsError name message \<Rightarrow>
          if name = ''TypeError'' \<and> (includes_str message ''fetch'' \<or> includes_str message ''network'')
          then NetworkError message
          else if name = ''AbortError'' then NetworkError ''Request was aborted''
          else RuntimeError message
      | JsString s \<Rightarrow> RuntimeError s
      | JsOther \<Rightarrow> RuntimeError ''An unknown error occurred'')"

section \<open>The client (src/client/createClient.ts)\<close>

definition STATUS_CACHE_KEY :: string where
  "STATUS_CACHE_KEY = ''billingextensions_status_cache''"

definition DEFAULT_CACHE_TTL_MS :: int where
  "DEFAULT_CACHE_TTL_MS = 30000"

definition CHECKOUT_RETURN_MESSAGE :: string where
  "CHECKOUT_RETURN_MESSAGE = ''BILLINGEXTENSIONS_CHECKOUT_RETURNED''"

definition DEFAULT_BG_ALARM_NAME :: string where
  "DEFAULT_BG_ALARM_NAME = ''billingextensions_status_tracking''"

definition DEFAULT_BG_POLL_MINUTES :: int where
  "DEFAULT_BG_POLL_MINUTES = 1"

definition LAST_SWR_AT_KEY :: string where
  "LAST_SWR_AT_KEY = ''billingextensions_last_swr_at''"

definition SWR_COOLDOWN_MS :: int where
  "SWR_COOLDOWN_MS = 5000"

subsection \<open>Asynchronous execution\<close>

text \<open>
  The client's functions are \<^verbatim>\<open>async\<close>: each runs until its next \<^verbatim>\<open>await\<close>,
  and continues when the awaited operation completes. The model is the event loop of one
  execution context: a call, or the completion of an awaited operation, runs one
  synchronous turn of the code (\<open>step\<close> below), which updates the client's variables,
  starts operations and leaves continuations behind. The request layer, the storage
  adapter and the platform's events are the environment: what the client asks of them is
  recorded in \<open>trace\<close>, in program order, and what they answer arrives as an event.
  Within a turn \<^verbatim>\<open>Date.now()\<close> is one value, \<open>now\<close>. A status-change handler is an opaque
  callback, identified by a number; calling it is an effect, and what it throws is caught
  at the call site.
\<close>

type_synonym handler = nat
type_synonym promise = nat
type_synonym opid = nat

text \<open>What the two storage keys hold.\<close>

datatype stored = CachedValue CachedStatus | NumberValue int

record StorageChange =
  oldValue :: "stored option"
  newValue :: "stored option"

datatype effect =
    HttpGet opid
  | StorageGet opid string
  | StorageSet opid string stored
  | HandlerCall handler UserStatus "UserStatus option" StatusDiff
  | Resolved promise UserStatus
  | Rejected promise BillingExtensionsError
  | StorageOnChangedAddListener
  | RuntimeOnMessageAddListener
  | AlarmsOnAlarmAddListener
  | AlarmsCreate string int
  | SendResponse

text \<open>
  Who awaits \<open>doRefresh()\<close>: \<open>getUser\<close> and \<open>refresh\<close> (with the promise they
  returned to their caller), or the body of \<open>autoSyncRefresh\<close> (with the in-flight promise).
\<close>

datatype caller = ByGetUser promise | ByRefresh promise | ByAutoSync promise

text \<open>A continuation suspended at an \<^verbatim>\<open>await\<close> of an operation of the environment.\<close>

datatype task =
    AwaitFetch caller
  | AwaitSave UserStatus caller
  | AwaitLoad promise
  | AwaitSwrGet
  | AwaitSwrSet

text \<open>
  A continuation suspended at an \<^verbatim>\<open>await\<close> of the promise of \<open>autoSyncRefresh\<close>:
  only \<open>schedulePaidSWRRevalidate\<close> awaits it, the other callers discard it (\<^verbatim>\<open>void\<close>).
\<close>

datatype waiter = SwrCheck

record client =
  currentStatus :: "UserStatus option"
  handlers :: "handler list"
  storageListenerAttached :: bool
  refreshInFlight :: "promise option"
  swrCheckInFlight :: "promise option"
  backgroundTrackingEnabled :: bool
  alarmListenerAttached :: bool
  messageListenerAttached :: bool
  tasks :: "opid \<rightharpoonup> task"
  waiters :: "(promise \<times> waiter) list"
  fresh :: nat
  trace :: "effect list"

text \<open>What the platform offers in this execution context.\<close>

record env =
  chromeStorageOnChanged :: bool
  chromeRuntimeOnMessage :: bool
  chromeAlarms :: bool
  hasWindow :: bool
  hasDocument :: bool
  locationProtocol :: "string option"

definition emit :: "effect \<Rightarrow> client \<Rightarrow> client" where
  "emit e c = c\<lparr>trace := trace c @ [e]\<rparr>"

text \<open>Start an operation of the environment and suspend on it.\<close>

definition startOp :: "(opid \<Rightarrow> effect) \<Rightarrow> task \<Rightarrow> client \<Rightarrow> client" where
  "startOp mk t c =
     c\<lparr>tasks := (tasks c)(fresh c \<mapsto> t),
       fresh := Suc (fresh c),
       trace := trace c @ [mk (fresh c)]\<rparr>"

subsection \<open>Notification\<close>

definition notifyHandlers :: "UserStatus \<Rightarrow> UserStatus option \<Rightarrow> client \<Rightarrow> client" where
  "notifyHandlers next prev c =
     (let diff = computeStatusDiff prev next in
      if prev \<noteq> None \<and> \<not> hasAnyChange diff then c
      else c\<lparr>trace := trace c @ map (\<lambda>handler. HandlerCall handler next prev diff) (handlers c)\<rparr>)"

definition attachStorageStatusListener :: "env \<Rightarrow> client \<Rightarrow> client" where
  "attachStorageStatusListener e c =
     (if storageListenerAttached c then c
      else if \<not> chromeStorageOnChanged e then c
      else emit StorageOnChangedAddListener (c\<lparr>storageListenerAttached := True\<rparr>))"

text \<open>The callback given to \<^verbatim>\<open>chrome.storage.onChanged.addListener\<close>.\<close>

definition storageListener :: "(string \<rightharpoonup> StorageChange) \<Rightarrow> client \<Rightarrow> client" where
  "storageListener changes c =
     (case changes STATUS_CACHE_KEY of
        None \<Rightarrow> c
      | Some change \<Rightarrow>
          (case newValue change of
             Some (CachedValue cached) \<Rightarrow>
               (let prev = (case oldValue change of
                              Some (CachedValue oldCached) \<Rightarrow> Some (status oldCached)
                            | _ \<Rightarrow> None);
                    next = status cached
                in notifyHandlers next prev (c\<lparr>currentStatus := Some next\<rparr>))
           | _ \<Rightarrow> c))"

subsection \<open>Refresh pipeline\<close>

text \<open>\<open>loadCachedStatus\<close>, after \<^verbatim>\<open>await getFromBestStorage(STATUS_CACHE_KEY)\<close>.\<close>

definition loadCachedStatus :: "int \<Rightarrow> CachedStatus option \<Rightarrow> UserStatus option" where
  "loadCachedStatus now r =
     (case r of
        None \<Rightarrow> None
      | Some cached \<Rightarrow>
          (let age = now - fetchedAt cached in
           if age > DEFAULT_CACHE_TTL_MS then None else Some (status cached)))"

text \<open>\<open>saveCachedStatus\<close>, up to its \<^verbatim>\<open>await setInBestStorage(...)\<close>.\<close>

definition saveCachedStatus :: "int \<Rightarrow> UserStatus \<Rightarrow> task \<Rightarrow> client \<Rightarrow> client" where
  "saveCachedStatus now s t c =
     (let cached = \<lparr> status = s, fetchedAt = now \<rparr> in
      startOp (\<lambda>op. StorageSet op STATUS_CACHE_KEY (CachedValue cached)) t c)"

text \<open>\<open>doRefresh\<close>, up to its \<^verbatim>\<open>await fetchStatus()\<close>.\<close>

definition doRefresh :: "caller \<Rightarrow> client \<Rightarrow> client" where
  "doRefresh k c = startOp HttpGet (AwaitFetch k) c"

text \<open>The promise of \<open>autoSyncRefresh\<close> settles: its awaiters continue.\<close>

definition wake :: "waiter \<Rightarrow> client \<Rightarrow> client" where
  "wake w c = (case w of SwrCheck \<Rightarrow> c\<lparr>swrCheckInFlight := None\<rparr>)"

definition settle :: "promise \<Rightarrow> client \<Rightarrow> client" where
  "settle p c =
     fold wake (map snd (filter (\<lambda>pw. fst pw = p) (waiters c)))
       (c\<lparr>waiters := filter (\<lambda>pw. fst pw \<noteq> p) (waiters c)\<rparr>)"

text \<open>
  What the awaiting function does with the outcome of \<open>doRefresh()\<close>: \<open>getUser\<close> and
  \<open>refresh\<close> return the status or throw the normalized error; the body of
  \<open>autoSyncRefresh\<close> swallows the error and, \<^verbatim>\<open>finally\<close>, clears the in-flight marker.
\<close>

definition doRefresh_return :: "caller \<Rightarrow> thrown + UserStatus \<Rightarrow> client \<Rightarrow> client" where
  "doRefresh_return k r c =
     (case k of
        ByGetUser pid \<Rightarrow>
          (case r of Inr s \<Rightarrow> emit (Resolved pid s) c
                   | Inl error \<Rightarrow> emit (Rejected pid (normalizeError error)) c)
      | ByRefresh pid \<Rightarrow>
          (case r of Inr s \<Rightarrow> emit (Resolved pid s) c
                   | Inl error \<Rightarrow> emit (Rejected pid (normalizeError error)) c)
      | ByAutoSync p \<Rightarrow> settle p (c\<lparr>refreshInFlight := None\<rparr>))"

text \<open>\<open>doRefresh\<close>, after \<^verbatim>\<open>await fetchStatus()\<close>.\<close>

definition doRefresh_afterFetch :: "int \<Rightarrow> caller \<Rightarrow> thrown + UserStatus \<Rightarrow> client \<Rightarrow> client" where
  "doRefresh_afterFetch now k r c =
     (case r of
        Inl error \<Rightarrow> doRefresh_return k (Inl error) c
      | Inr next \<Rightarrow> saveCachedStatus now next (AwaitSave next k) (c\<lparr>currentStatus := Some next\<rparr>))"

text \<open>\<open>doRefresh\<close>, after \<^verbatim>\<open>await saveCachedStatus(next)\<close>.\<close>

definition doRefresh_afterSave :: "caller \<Rightarrow> UserStatus \<Rightarrow> client \<Rightarrow> client" where
  "doRefresh_afterSave k next c = doRefresh_return k (Inr next) c"

text \<open>
  \<open>autoSyncRefresh\<close>: the promise its \<^verbatim>\<open>return\<close> statement names, and the client
  after the call.
\<close>

definition autoSyncRefresh :: "client \<Rightarrow> promise \<times> client" where
  "autoSyncRefresh c =
     (case refreshInFlight c of
        Some p \<Rightarrow> (p, c)
      | None \<Rightarrow>
          (let p = fresh c;
               c1 = doRefresh (ByAutoSync p) (c\<lparr>fresh := Suc p\<rparr>)
           in (p, c1\<lparr>refreshInFlight := Some p\<rparr>)))"

subsection \<open>Stale-while-revalidate gate\<close>

definition schedulePaidSWRRevalidate :: "client \<Rightarrow> client" where
  "schedulePaidSWRRevalidate c =
     (if swrCheckInFlight c \<noteq> None then c
      else
        (let p = fresh c;
             c1 = startOp (\<lambda>op. StorageGet op LAST_SWR_AT_KEY) AwaitSwrGet (c\<lparr>fresh := Suc p\<rparr>)
         in c1\<lparr>swrCheckInFlight := Some p\<rparr>))"

text \<open>After \<^verbatim>\<open>await getFromBestStorage(LAST_SWR_AT_KEY)\<close>.\<close>

definition schedulePaidSWRRevalidate_afterGet :: "int \<Rightarrow> int option \<Rightarrow> client \<Rightarrow> client" where
  "schedulePaidSWRRevalidate_afterGet now r c =
     (let last = (case r of None \<Rightarrow> 0 | Some n \<Rightarrow> n) in
      if now - last < SWR_COOLDOWN_MS then c\<lparr>swrCheckInFlight := None\<rparr>
      else startOp (\<lambda>op. StorageSet op LAST_SWR_AT_KEY (NumberValue now)) AwaitSwrSet c)"

text \<open>After \<^verbatim>\<open>await setInBestStorage(LAST_SWR_AT_KEY, now)\<close>: \<^verbatim>\<open>await autoSyncRefresh()\<close>.\<close>

definition schedulePaidSWRRevalidate_afterSet :: "client \<Rightarrow> client" where
  "schedulePaidSWRRevalidate_afterSet c =
     (case autoSyncRefresh c of
        (p, c1) \<Rightarrow> c1\<lparr>waiters := waiters c1 @ [(p, SwrCheck)]\<rparr>)"

subsection \<open>Background tracking\<close>

text \<open>The callback given to \<^verbatim>\<open>chrome.runtime.onMessage.addListener\<close>; \<open>msg\<close> is \<^verbatim>\<open>msg?.type\<close>.\<close>

definition messageListener :: "string option \<Rightarrow> client \<Rightarrow> client" where
  "messageListener msg c =
     (if msg = Some CHECKOUT_RETURN_MESSAGE
      then emit SendResponse (snd (autoSyncRefresh c))
      else c)"

text \<open>The callback given to \<^verbatim>\<open>chrome.alarms.onAlarm.addListener\<close>.\<close>

definition alarmListener :: "string \<Rightarrow> client \<Rightarrow> client" where
  "alarmListener name c =
     (if name = DEFAULT_BG_ALARM_NAME then snd (autoSyncRefresh c) else c)"

text \<open>
  \<open>opts\<close> is \<^verbatim>\<open>opts?.periodInMinutes\<close>. \<^verbatim>\<open>chrome.alarms.create\<close> may throw (a missing
  permission); the exception is caught and changes nothing of what follows.
\<close>

definition enableBackgroundStatusTracking :: "env \<Rightarrow> int option \<Rightarrow> client \<Rightarrow> client" where
  "enableBackgroundStatusTracking e opts c =
     (if backgroundTrackingEnabled c then c
      else
        (let c0 = c\<lparr>backgroundTrackingEnabled := True\<rparr>;
             periodInMinutes = (case opts of None \<Rightarrow> DEFAULT_BG_POLL_MINUTES | Some n \<Rightarrow> n);
             c1 = (if chromeRuntimeOnMessage e \<and> \<not> messageListenerAttached c0
                   then emit RuntimeOnMessageAddListener (c0\<lparr>messageListenerAttached := True\<rparr>)
                   else c0);
             c2 = (if chromeAlarms e
                   then (let c' = emit (AlarmsCreate DEFAULT_BG_ALARM_NAME periodInMinutes) c1 in
                         if \<not> alarmListenerAttached c'
                         then emit AlarmsOnAlarmAddListener (c'\<lparr>alarmListenerAttached := True\<rparr>)
                         else c')
                   else c1)
         in snd (autoSyncRefresh c2)))"

subsection \<open>Public API\<close>

record GetUserOptions =
  forceRefresh :: "bool maybe"

text \<open>
  \<open>getUser\<close>, up to its first \<^verbatim>\<open>await\<close>; \<open>pid\<close> stands for the promise it returns.
  (What it writes to the console when it fails is left out.)
\<close>

definition getUser :: "promise \<Rightarrow> GetUserOptions option \<Rightarrow> client \<Rightarrow> client" where
  "getUser pid opts c =
     (let forceRefresh = (case opts of None \<Rightarrow> False | Some x \<Rightarrow> forceRefresh x = Val True) in
      if \<not> forceRefresh \<and> currentStatus c \<noteq> None
      then emit (Resolved pid (the (currentStatus c))) c
      else if \<not> forceRefresh
      then startOp (\<lambda>op. StorageGet op STATUS_CACHE_KEY) (AwaitLoad pid) c
      else doRefresh (ByGetUser pid) c)"

text \<open>\<open>getUser\<close>, after \<^verbatim>\<open>await loadCachedStatus()\<close>.\<close>

definition getUser_afterLoad :: "int \<Rightarrow> promise \<Rightarrow> CachedStatus option \<Rightarrow> client \<Rightarrow> client" where
  "getUser_afterLoad now pid r c =
     (case loadCachedStatus now r of
        Some cached \<Rightarrow>
          (let c1 = c\<lparr>currentStatus := Some cached\<rparr>;
               c2 = (if paid cached = True then schedulePaidSWRRevalidate c1 else c1)
           in emit (Resolved pid cached) c2)
      | None \<Rightarrow> doRefresh (ByGetUser pid) c)"

definition refresh :: "promise \<Rightarrow> client \<Rightarrow> client" where
  "refresh pid c = doRefresh (ByRefresh pid) c"

text \<open>\<open>handlers\<close> is a \<^verbatim>\<open>Set\<close>: insertion order, no duplicates.\<close>

definition onStatusChanged :: "handler \<Rightarrow> client \<Rightarrow> client" where
  "onStatusChanged handler c =
     (let c1 = c\<lparr>handlers := (if handler \<in> set (handlers c) then handlers c
                                else handlers c @ [handler])\<rparr> in
      case currentStatus c1 of
        Some cs \<Rightarrow>
          emit (HandlerCall handler cs None
                  \<lparr> entitlementChanged = True,
                    planChanged = (plan cs \<noteq> Undefined \<and> plan cs \<noteq> Null),
                    usageChanged = False \<rparr>) c1
      | None \<Rightarrow> c1)"

text \<open>The function \<open>onStatusChanged\<close> returns.\<close>

definition unsubscribe :: "handler \<Rightarrow> client \<Rightarrow> client" where
  "unsubscribe handler c = c\<lparr>handlers := removeAll handler (handlers c)\<rparr>"

record BillingExtensionsClientConfig =
  appId :: string
  publicKey :: string

definition validateConfig :: "BillingExtensionsClientConfig \<Rightarrow> BillingExtensionsError option" where
  "validateConfig config =
     (if appId config = [] then Some (ConfigError ''appId is required and must be a non-empty string'')
      else if publicKey config = []
      then Some (ConfigError ''publicKey is required and must be a non-empty string'')
      else None)"

text \<open>
  The client's variables as \<open>createBillingExtensionsClient\<close> declares them. (AutoSync
  keeps its own state; it is modelled in the next section.)
\<close>

definition initialClient :: client where
  "initialClient =
     \<lparr> currentStatus = None, handlers = [], storageListenerAttached = False,
       refreshInFlight = None, swrCheckInFlight = None,
       backgroundTrackingEnabled = False, alarmListenerAttached = False,
       messageListenerAttached = False, tasks = Map.empty, waiters = [],
       fresh = 0, trace = [] \<rparr>"

definition createBillingExtensionsClient ::
  "env \<Rightarrow> BillingExtensionsClientConfig \<Rightarrow> BillingExtensionsError + client" where
  "createBillingExtensionsClient e config =
     (case validateConfig config of
        Some error \<Rightarrow> Inl error
      | None \<Rightarrow> Inr (attachStorageStatusListener e initialClient))"

subsection \<open>The event loop\<close>

datatype event =
    CallGetUser promise "GetUserOptions option"
  | CallRefresh promise
  | CallOnStatusChanged handler
  | CallUnsubscribe handler
  | CallEnableBackgroundStatusTracking "int option"
  | FetchDone opid "thrown + UserStatus"
  | StorageGetCachedDone opid "CachedStatus option"
  | StorageGetNumberDone opid "int option"
  | StorageSetDone opid
  | StorageChanged "string \<rightharpoonup> StorageChange"
  | RuntimeMessage "string option"
  | AlarmFired string

definition finished :: "opid \<Rightarrow> client \<Rightarrow> client" where
  "finished op c = c\<lparr>tasks := (tasks c)(op := None)\<rparr>"

definition step :: "env \<Rightarrow> int \<Rightarrow> event \<Rightarrow> client \<Rightarrow> client" where
  "step e now ev c =
     (case ev of
        CallGetUser pid opts \<Rightarrow> getUser pid opts c
      | CallRefresh pid \<Rightarrow> refresh pid c
      | CallOnStatusChanged h \<Rightarrow> onStatusChanged h c
      | CallUnsubscribe h \<Rightarrow> unsubscribe h c
      | CallEnableBackgroundStatusTracking opts \<Rightarrow> enableBackgroundStatusTracking e opts c
      | FetchDone op r \<Rightarrow>
          (case tasks c op of
             Some (AwaitFetch k) \<Rightarrow> doRefresh_afterFetch now k r (finished op c)
           | _ \<Rightarrow> c)
      | StorageGetCachedDone op r \<Rightarrow>
          (case tasks c op of
             Some (AwaitLoad pid) \<Rightarrow> getUser_afterLoad now pid r (finished op c)
           | _ \<Rightarrow> c)
      | StorageGetNumberDone op r \<Rightarrow>
          (case tasks c op of
             Some AwaitSwrGet \<Rightarrow> schedulePaidSWRRevalidate_afterGet now r (finished op c)
           | _ \<Rightarrow> c)
      | StorageSetDone op \<Rightarrow>
          (case tasks c op of
             Some (AwaitSave next k) \<Rightarrow> doRefresh_afterSave k next (finished op c)
           | Some AwaitSwrSet \<Rightarrow> schedulePaidSWRRevalidate_afterSet (finished op c)
           | _ \<Rightarrow> c)
      | StorageChanged changes \<Rightarrow>
          (if storageListenerAttached c then storageListener changes c else c)
      | RuntimeMessage msg \<Rightarrow>
          (if messageListenerAttached c then messageListener msg c else c)
      | AlarmFired name \<Rightarrow>
          (if alarmListenerAttached c then alarmListener name c else c))"

text \<open>What one turn adds to the trace.\<close>

definition emitted :: "env \<Rightarrow> int \<Rightarrow> event \<Rightarrow> client \<Rightarrow> effect list" where
  "emitted e now ev c = drop (length (trace c)) (trace (step e now ev c))"

fun run :: "env \<Rightarrow> (int \<times> event) list \<Rightarrow> client \<Rightarrow> client" where
  "run e [] c = c"
| "run e ((now, ev) # evs) c = run e evs (step e now ev c)"

section \<open>AutoSync (core/autosync)\<close>

record AutoSyncOptions =
  refreshOnInit :: bool
  refreshOnFocus :: bool
  refreshOnOnline :: bool
  debounceMs :: int
  minIntervalMs :: int

definition DEFAULT_AUTOSYNC_OPTIONS :: AutoSyncOptions where
  "DEFAULT_AUTOSYNC_OPTIONS =
     \<lparr> refreshOnInit = True, refreshOnFocus = True, refreshOnOnline = True,
       debounceMs = 300, minIntervalMs = 3000 \<rparr>"

definition ALLOWED_PROTOCOLS :: "string set" where
  "ALLOWED_PROTOCOLS = {''chrome-extension:'', ''moz-extension:'', ''safari-extension:''}"

text \<open>
  \<open>locationProtocol\<close> is \<open>None\<close> when \<^verbatim>\<open>location\<close> is undefined or its
  \<^verbatim>\<open>protocol\<close> is not a string.
\<close>

definition isExtensionUiContext :: "env \<Rightarrow> bool" where
  "isExtensionUiContext e =
     (if \<not> hasWindow e \<or> \<not> hasDocument e then False
      else (case locationProtocol e of
              None \<Rightarrow> False
            | Some protocol \<Rightarrow> protocol \<in> ALLOWED_PROTOCOLS))"

type_synonym timer = nat

datatype target = Document | Window

datatype listenerFn = HandleVisibility | HandleFocus | HandleOnline

text \<open>
  The cleanup closure of \<open>setupAutoSyncListeners\<close>: the no-op one, or the one that
  removes the listeners it recorded and clears the timer of the state it captured.
\<close>

datatype cleanup = NoopCleanup | RemoveListeners "(target \<times> string \<times> listenerFn) list" "timer option"

record AutoSyncState =
  enabled :: bool
  activated :: bool
  options :: AutoSyncOptions
  lastRefreshAt :: int
  debounceTimer :: "timer option"
  pendingPostActionRefresh :: bool
  cleanup :: "cleanup option"

text \<open>
  The functions of this module take the state as a value (\<open>state\<close>, the object the
  caller passes) and write through the callback \<open>updateState\<close>, which replaces the
  client's variable \<open>autoSyncState\<close> by a copy with the given fields changed. The model
  keeps both: \<open>state\<close> is an argument, and the variable, the pending timers of
  \<^verbatim>\<open>setTimeout\<close> (identifier and delay) and the attached DOM listeners are the fields
  of \<open>scheduler\<close>. A set of changed fields (\<^verbatim>\<open>Partial<AutoSyncState>\<close>) is a record update.
\<close>

record scheduler =
  autoSyncState :: AutoSyncState
  timers :: "(timer \<times> int) list"
  nextTimer :: timer
  listeners :: "(target \<times> string \<times> listenerFn) list"

definition createAutoSyncState :: "(AutoSyncOptions \<Rightarrow> AutoSyncOptions) \<Rightarrow> AutoSyncState" where
  "createAutoSyncState opts =
     \<lparr> enabled = True, activated = False, options = opts DEFAULT_AUTOSYNC_OPTIONS,
       lastRefreshAt = 0, debounceTimer = None, pendingPostActionRefresh = False,
       cleanup = None \<rparr>"

definition mergeAutoSyncOptions ::
  "AutoSyncState \<Rightarrow> (AutoSyncOptions \<Rightarrow> AutoSyncOptions) \<Rightarrow> AutoSyncState" where
  "mergeAutoSyncOptions state opts = state\<lparr>options := opts (options state)\<rparr>"

definition updateState ::
  "(AutoSyncState \<Rightarrow> AutoSyncState) \<Rightarrow> 'a scheduler_scheme \<Rightarrow> 'a scheduler_scheme" where
  "updateState updates w = w\<lparr>autoSyncState := updates (autoSyncState w)\<rparr>"

definition setTimeout :: "int \<Rightarrow> 'a scheduler_scheme \<Rightarrow> timer \<times> 'a scheduler_scheme" where
  "setTimeout delay w =
     (nextTimer w,
      w\<lparr>timers := timers w @ [(nextTimer w, delay)], nextTimer := Suc (nextTimer w)\<rparr>)"

definition clearTimeout :: "timer \<Rightarrow> 'a scheduler_scheme \<Rightarrow> 'a scheduler_scheme" where
  "clearTimeout t w = w\<lparr>timers := filter (\<lambda>p. fst p \<noteq> t) (timers w)\<rparr>"

definition canRefresh :: "int \<Rightarrow> AutoSyncState \<Rightarrow> bool" where
  "canRefresh now state = (now - lastRefreshAt state \<ge> minIntervalMs (options state))"

text \<open>
  The callback of every timer set here is \<^verbatim>\<open>() => void executeRefresh(doRefresh, updateState)\<close>.
\<close>

definition scheduleRefresh ::
  "int \<Rightarrow> AutoSyncState \<Rightarrow> 'a scheduler_scheme \<Rightarrow> 'a scheduler_scheme" where
  "scheduleRefresh now state w =
     (let w1 = (case debounceTimer state of
                  Some t \<Rightarrow> clearTimeout t w
                | None \<Rightarrow> w)
      in
        if \<not> canRefresh now state
        then
          (let waitTime = minIntervalMs (options state) - (now - lastRefreshAt state) in
           case setTimeout waitTime w1 of
             (timer, w2) \<Rightarrow> updateState (\<lambda>s. s\<lparr>debounceTimer := Some timer\<rparr>) w2)
        else
          (case setTimeout (debounceMs (options state)) w1 of
             (timer, w2) \<Rightarrow> updateState (\<lambda>s. s\<lparr>debounceTimer := Some timer\<rparr>) w2))"

text \<open>
  \<open>refreshFn\<close> is the refresh function the caller passes (the parameter
  \<^verbatim>\<open>doRefresh\<close>): it acts on the world and either returns or throws. \<open>executeRefresh\<close> itself never throws.
\<close>

definition executeRefresh ::
  "int \<Rightarrow> ('a scheduler_scheme \<Rightarrow> (thrown + unit) \<times> 'a scheduler_scheme) \<Rightarrow>
   'a scheduler_scheme \<Rightarrow> (thrown + unit) \<times> 'a scheduler_scheme" where
  "executeRefresh now refreshFn w =
     (let w1 = updateState (\<lambda>s. s\<lparr>lastRefreshAt := now, debounceTimer := None\<rparr>) w in
      case refreshFn w1 of
        (Inl error, w2) \<Rightarrow> (Inr (), w2)
      | (Inr u, w2) \<Rightarrow> (Inr (), w2))"

text \<open>A pending timer fires: its callback runs. A cleared timer is not pending any more.\<close>

definition timerFired ::
  "int \<Rightarrow> ('a scheduler_scheme \<Rightarrow> (thrown + unit) \<times> 'a scheduler_scheme) \<Rightarrow> timer \<Rightarrow>
   'a scheduler_scheme \<Rightarrow> (thrown + unit) \<times> 'a scheduler_scheme" where
  "timerFired now refreshFn t w =
     (if t \<in> fst ` set (timers w)
      then executeRefresh now refreshFn (w\<lparr>timers := filter (\<lambda>p. fst p \<noteq> t) (timers w)\<rparr>)
      else (Inr (), w))"





definition setupAutoSyncListeners ::
  "env \<Rightarrow> AutoSyncState \<Rightarrow> 'a scheduler_scheme \<Rightarrow> cleanup \<times> 'a scheduler_scheme" where
  "setupAutoSyncListeners e state w =
     (if \<not> isExtensionUiContext e then (NoopCleanup, w)
      else
        (let ls1 = (if refreshOnFocus (options state)
                    then [(Document, ''visibilitychange'', HandleVisibility),
                          (Window, ''focus'', HandleFocus)]
                    else []);
             ls2 = (if refreshOnOnline (options state)
                    then [(Window, ''online'', HandleOnline)]
                    else [])
         in (RemoveListeners (ls1 @ ls2) (debounceTimer state),
             w\<lparr>listeners := listeners w @ ls1 @ ls2\<rparr>)))"

definition runCleanup :: "cleanup \<Rightarrow> 'a scheduler_scheme \<Rightarrow> 'a scheduler_scheme" where
  "runCleanup cl w =
     (case cl of
        NoopCleanup \<Rightarrow> w
      | RemoveListeners ls t \<Rightarrow>
          (let w1 = w\<lparr>listeners := fold remove1 ls (listeners w)\<rparr> in
           case t of
             Some tm \<Rightarrow> updateState (\<lambda>s. s\<lparr>debounceTimer := None\<rparr>) (clearTimeout tm w1)
           | None \<Rightarrow> w1))"

definition activateAutoSync ::
  "env \<Rightarrow> int \<Rightarrow> AutoSyncState \<Rightarrow> 'a scheduler_scheme \<Rightarrow> 'a scheduler_scheme" where
  "activateAutoSync e now state w =
     (if \<not> enabled state then w
      else if activated state then w
      else if \<not> isExtensionUiContext e then w
      else
        (case setupAutoSyncListeners e state w of
           (cl, w1) \<Rightarrow>
             (let w2 = updateState (\<lambda>s. s\<lparr>activated := True, cleanup := Some cl\<rparr>) w1 in
              if refreshOnInit (options state) then scheduleRefresh now state w2 else w2)))"

definition deactivateAutoSync :: "AutoSyncState \<Rightarrow> 'a scheduler_scheme \<Rightarrow> 'a scheduler_scheme" where
  "deactivateAutoSync state w =
     (let w1 = (case cleanup state of Some cl \<Rightarrow> runCleanup cl w | None \<Rightarrow> w) in
      updateState (\<lambda>s. s\<lparr>activated := False, cleanup := None\<rparr>) w1)"

section \<open>Overlapping calls\<close>

text \<open>
  \<open>n\<close> calls of \<open>autoSyncRefresh\<close> one after the other, nothing completing in between:
  the promises they return, and the client after the last.
\<close>

fun autoSyncRefresh_times :: "nat \<Rightarrow> client \<Rightarrow> promise list \<times> client" where
  "autoSyncRefresh_times 0 c = ([], c)"
| "autoSyncRefresh_times (Suc n) c =
     (case autoSyncRefresh c of
        (p, c1) \<Rightarrow> (case autoSyncRefresh_times n c1 of (ps, c2) \<Rightarrow> (p # ps, c2)))"

text \<open>Calls of \<open>enableBackgroundStatusTracking\<close> one after the other, one per option value.\<close>

fun enableBackgroundStatusTracking_calls :: "env \<Rightarrow> int option list \<Rightarrow> client \<Rightarrow> client" where
  "enableBackgroundStatusTracking_calls e [] c = c"
| "enableBackgroundStatusTracking_calls e (opts # rest) c =
     enableBackgroundStatusTracking_calls e rest (enableBackgroundStatusTracking e opts c)"

text \<open>
  The body of \<open>autoSyncRefresh\<close> that returned promise \<open>q\<close> is suspended on operation
  \<open>op\<close> (its fetch, or the store write after it).
\<close>

definition autoSyncTask :: "client \<Rightarrow> opid \<Rightarrow> promise \<Rightarrow> bool" where
  "autoSyncTask c op q =
     (case tasks c op of
        Some (AwaitFetch (ByAutoSync p)) \<Rightarrow> p = q
      | Some (AwaitSave n (ByAutoSync p)) \<Rightarrow> p = q
      | _ \<Rightarrow> False)"

text \<open>
  The in-flight marker and the suspended bodies agree: operation identifiers are below
  the counter, a suspended body is the one the marker names, there is at most one, and
  a set marker has its body suspended.
\<close>

definition deduped :: "client \<Rightarrow> bool" where
  "deduped c =
     ((\<forall>op t. tasks c op = Some t \<longrightarrow> op < fresh c) \<and>
      (\<forall>op q. autoSyncTask c op q \<longrightarrow> refreshInFlight c = Some q) \<and>
      (\<forall>op op' q q'. autoSyncTask c op q \<and> autoSyncTask c op' q' \<longrightarrow> op = op') \<and>
      (\<forall>p. refreshInFlight c = Some p \<longrightarrow> (\<exists>op. autoSyncTask c op p)))"

section \<open>Reading the trace\<close>

definition isHandlerCall :: "effect \<Rightarrow> bool" where
  "isHandlerCall x = (case x of HandlerCall h n p d \<Rightarrow> True | _ \<Rightarrow> False)"

definition isHttpGet :: "effect \<Rightarrow> bool" where
  "isHttpGet x = (case x of HttpGet op \<Rightarrow> True | _ \<Rightarrow> False)"

section \<open>Compared fields, as the specification names them\<close>

text \<open>
  Two statuses agree on the compared fields: \<open>paid\<close>; the plan's id, nickname, status
  and currentPeriodEnd; the usage's used, limit and resetsAt. Two absent sections agree,
  an absent one and a present one do not.
\<close>

definition samePlan :: "UserPlan maybe \<Rightarrow> UserPlan maybe \<Rightarrow> bool" where
  "samePlan a b =
     (case (a, b) of
        (Val p, Val q) \<Rightarrow>
          plan_id p = plan_id q \<and> nickname p = nickname q \<and>
          plan_status p = plan_status q \<and> currentPeriodEnd p = currentPeriodEnd q
      | (Val p, _) \<Rightarrow> False
      | (_, Val q) \<Rightarrow> False
      | _ \<Rightarrow> True)"

definition sameUsage :: "UserUsage maybe \<Rightarrow> UserUsage maybe \<Rightarrow> bool" where
  "sameUsage a b =
     (case (a, b) of
        (Val p, Val q) \<Rightarrow>
          used p = used q \<and> usage_limit p = usage_limit q \<and> resetsAt p = resetsAt q
      | (Val p, _) \<Rightarrow> False
      | (_, Val q) \<Rightarrow> False
      | _ \<Rightarrow> True)"

definition sameComparedFields :: "UserStatus \<Rightarrow> UserStatus \<Rightarrow> bool" where
  "sameComparedFields a b =
     (paid a = paid b \<and> samePlan (plan a) (plan b) \<and> sameUsage (usage a) (usage b))"

section \<open>Example values\<close>

definition freeUser :: UserStatus where
  "freeUser = \<lparr> extensionUserId = ''u-1'', paid = False, plan = Undefined, usage = Undefined \<rparr>"

definition proPlan :: UserPlan where
  "proPlan = \<lparr> plan_id = ''pro'', nickname = Val ''Pro'', plan_status = ''active'',
               currentPeriodEnd = Val ''2026-01-01T00:00:00Z'' \<rparr>"

definition paidUser :: UserStatus where
  "paidUser = \<lparr> extensionUserId = ''u-1'', paid = True, plan = Val proPlan,
                usage = Val \<lparr> used = 3, usage_limit = Val 10, resetsAt = Null \<rparr> \<rparr>"

text \<open>A popup page of a Chrome extension, and a service worker without the alarms API.\<close>

definition popupEnv :: env where
  "popupEnv = \<lparr> chromeStorageOnChanged = True, chromeRuntimeOnMessage = True,
                chromeAlarms = True, hasWindow = True, hasDocument = True,
                locationProtocol = Some ''chrome-extension:'' \<rparr>"

definition workerEnv :: env where
  "workerEnv = \<lparr> chromeStorageOnChanged = True, chromeRuntimeOnMessage = True,
                 chromeAlarms = False, hasWindow = False, hasDocument = False,
                 locationProtocol = Some ''chrome-extension:'' \<rparr>"

definition exampleConfig :: BillingExtensionsClientConfig where
  "exampleConfig = \<lparr> appId = ''my-new-app'', publicKey = ''app_publicKey'' \<rparr>"

text \<open>A client created in the popup; the same with a handler subscribed and \<open>refresh()\<close> called.\<close>

definition popupClient :: client where
  "popupClient = attachStorageStatusListener popupEnv initialClient"

definition refreshingClient :: client where
  "refreshingClient = step popupEnv 0 (CallRefresh 1) (onStatusChanged 7 popupClient)"

text \<open>
  \<open>getUser()\<close> called on a new client in the popup: waiting for the persisted cache;
  then, the cache entry being 31000 ms old, waiting for the request; then, the request
  having answered, waiting for the store write.
\<close>

definition staleEntry :: CachedStatus where
  "staleEntry = \<lparr> status = freeUser, fetchedAt = 1000 \<rparr>"

definition loadingClient :: client where
  "loadingClient = step popupEnv 32000 (CallGetUser 1 None) popupClient"

definition fetchingClient :: client where
  "fetchingClient = step popupEnv 32000 (StorageGetCachedDone 0 (Some staleEntry)) loadingClient"

definition savingClient :: client where
  "savingClient = step popupEnv 32100 (FetchDone 1 (Inr paidUser)) fetchingClient"

text \<open>
  \<open>autoSyncRefresh()\<close> called on a new client: waiting for the request; then, the
  request having answered, waiting for the store write.
\<close>

definition syncingClient :: client where
  "syncingClient = snd (autoSyncRefresh popupClient)"

definition syncedClient :: client where
  "syncedClient = step popupEnv 10 (FetchDone 1 (Inr paidUser)) syncingClient"

text \<open>
  \<open>getUser()\<close> on a new client finds a fresh persisted entry that says paid: the gate
  is waiting for the last-SWR timestamp; then, the cooldown being over, waiting for the
  write of the new timestamp.
\<close>

definition paidEntry :: CachedStatus where
  "paidEntry = \<lparr> status = paidUser, fetchedAt = 31000 \<rparr>"

definition gateClient :: client where
  "gateClient = step popupEnv 32000 (StorageGetCachedDone 0 (Some paidEntry)) loadingClient"

definition stampingClient :: client where
  "stampingClient = step popupEnv 32001 (StorageGetNumberDone 2 None) gateClient"

text \<open>A client created in the service worker without the alarms API.\<close>

definition workerClient :: client where
  "workerClient = attachStorageStatusListener workerEnv initialClient"

text \<open>A content script on a web page.\<close>

definition webPageEnv :: env where
  "webPageEnv = \<lparr> chromeStorageOnChanged = True, chromeRuntimeOnMessage = True,
                  chromeAlarms = False, hasWindow = True, hasDocument = True,
                  locationProtocol = Some ''https:'' \<rparr>"

text \<open>
  The scheduler of a new client; after \<open>scheduleRefresh\<close> at time 10000; after a
  second call 100 ms later, with the current state; after the second timer has fired at
  time 10400 and the refresh has failed.
\<close>

definition newScheduler :: scheduler where
  "newScheduler = \<lparr> autoSyncState = createAutoSyncState (\<lambda>opts. opts), timers = [],
                    nextTimer = 0, listeners = [] \<rparr>"

definition onceScheduled :: scheduler where
  "onceScheduled = scheduleRefresh 10000 (autoSyncState newScheduler) newScheduler"

definition twiceScheduled :: scheduler where
  "twiceScheduled = scheduleRefresh 10100 (autoSyncState onceScheduled) onceScheduled"

definition failingRefresh :: "scheduler \<Rightarrow> (thrown + unit) \<times> scheduler" where
  "failingRefresh w = (Inl (JsString ''offline''), w)"

definition refreshed :: scheduler where
  "refreshed = snd (timerFired 10400 failingRefresh 1 twiceScheduled)"





section \<open>Status diff\<close>

text \<open>
  Claim C3. When \<open>prev\<close> is absent (\<^verbatim>\<open>null\<close>), \<open>computeStatusDiff\<close> reports
  \<open>entitlementChanged = true\<close>, reports \<open>planChanged = true\<close> exactly when \<open>next.plan\<close>
  is present (neither \<^verbatim>\<open>undefined\<close> nor \<^verbatim>\<open>null\<close>), and reports
  \<open>usageChanged = true\<close> exactly when \<open>next.usage\<close> is present.
\<close>

theorem computeStatusDiff_first_observation:
  "entitlementChanged (computeStatusDiff None next) = True \<and>
   planChanged (computeStatusDiff None next) = (plan next \<noteq> Undefined \<and> plan next \<noteq> Null) \<and>
   usageChanged (computeStatusDiff None next) = (usage next \<noteq> Undefined \<and> usage next \<noteq> Null)"
  by (simp add: computeStatusDiff_def computeEntitlementChanged_def
      computePlanChanged_def computeUsageChanged_def)

theorem computeStatusDiff_first_observation_witness:
  "computeStatusDiff None paidUser =
     \<lparr> entitlementChanged = True, planChanged = True, usageChanged = True \<rparr> \<and>
   computeStatusDiff None freeUser =
     \<lparr> entitlementChanged = True, planChanged = False, usageChanged = False \<rparr>"
  using computeStatusDiff_first_observation [of paidUser]
    computeStatusDiff_first_observation [of freeUser]
  by (simp add: paidUser_def freeUser_def StatusDiff.equality)

lemma computePlanChanged_samePlan:
  "computePlanChanged (Some prev) next = (\<not> samePlan (plan prev) (plan next))"
  by (cases "plan prev"; cases "plan next") (auto simp: computePlanChanged_def samePlan_def)

lemma computeUsageChanged_sameUsage:
  "computeUsageChanged (Some prev) next = (\<not> sameUsage (usage prev) (usage next))"
  by (cases "usage prev"; cases "usage next") (auto simp: computeUsageChanged_def sameUsage_def)

lemma hasAnyChange_sameComparedFields:
  "hasAnyChange (computeStatusDiff (Some prev) next) = (\<not> sameComparedFields prev next)"
  by (auto simp: hasAnyChange_def computeStatusDiff_def computeEntitlementChanged_def
      computePlanChanged_samePlan computeUsageChanged_sameUsage sameComparedFields_def)

lemma notifyHandlers_unchanged:
  "sameComparedFields prev next \<Longrightarrow> notifyHandlers next (Some prev) c = c"
  by (simp add: notifyHandlers_def hasAnyChange_sameComparedFields)

text \<open>
  Claim C4. \<open>hasAnyChange\<close> is the disjunction of the three flags. Hence, when a
  non-null \<open>prev\<close> agrees with \<open>next\<close> on all compared fields, \<open>hasAnyChange\<close> of their
  diff is false, \<open>notifyHandlers\<close> calls no handler (it leaves the client, and so the
  trace of calls, as it was), and a storage change-event from \<open>prev\<close> to \<open>next\<close> calls
  no handler either.
\<close>

theorem hasAnyChange_gates_notification:
  "hasAnyChange diff = (entitlementChanged diff \<or> planChanged diff \<or> usageChanged diff) \<and>
   (sameComparedFields prev next \<longrightarrow>
      \<not> hasAnyChange (computeStatusDiff (Some prev) next) \<and>
      notifyHandlers next (Some prev) c = c \<and>
      trace (storageListener
               [STATUS_CACHE_KEY \<mapsto>
                  \<lparr> oldValue = Some (CachedValue \<lparr> status = prev, fetchedAt = t0 \<rparr>),
                    newValue = Some (CachedValue \<lparr> status = next, fetchedAt = t1 \<rparr>) \<rparr>] c)
        = trace c)"
  by (simp add: hasAnyChange_def [of diff] hasAnyChange_sameComparedFields
      notifyHandlers_unchanged storageListener_def)

theorem hasAnyChange_gates_notification_witness:
  "sameComparedFields paidUser (paidUser\<lparr>extensionUserId := ''u-2''\<rparr>) \<and>
   \<not> hasAnyChange (computeStatusDiff (Some paidUser) (paidUser\<lparr>extensionUserId := ''u-2''\<rparr>)) \<and>
   notifyHandlers (paidUser\<lparr>extensionUserId := ''u-2''\<rparr>) (Some paidUser)
     (initialClient\<lparr>handlers := [7, 8]\<rparr>) = initialClient\<lparr>handlers := [7, 8]\<rparr>"
proof -
  have same: "sameComparedFields paidUser (paidUser\<lparr>extensionUserId := ''u-2''\<rparr>)"
    by (simp add: sameComparedFields_def samePlan_def sameUsage_def paidUser_def)
  from hasAnyChange_gates_notification
      [of "computeStatusDiff (Some paidUser) (paidUser\<lparr>extensionUserId := ''u-2''\<rparr>)"
          paidUser "paidUser\<lparr>extensionUserId := ''u-2''\<rparr>"
          "initialClient\<lparr>handlers := [7, 8]\<rparr>" 0 1]
    and same show ?thesis
    by blast
qed

section \<open>Subscription\<close>

text \<open>
  Claim C10. \<open>onStatusChanged(handler)\<close> adds the handler to the set and, when the
  in-memory \<open>currentStatus\<close> is non-null, calls it once at once, with \<open>prev = null\<close> and
  the diff \<open>entitlementChanged = true\<close>, \<open>planChanged = (currentStatus.plan != null)\<close>,
  \<open>usageChanged = false\<close>, whatever \<open>currentStatus.usage\<close> is; when \<open>currentStatus\<close> is
  null it calls nothing.
\<close>

theorem onStatusChanged_immediate_call:
  "handlers (onStatusChanged h c) =
     (if h \<in> set (handlers c) then handlers c else handlers c @ [h]) \<and>
   currentStatus (onStatusChanged h c) = currentStatus c \<and>
   trace (onStatusChanged h c) =
     trace c @
     (case currentStatus c of
        None \<Rightarrow> []
      | Some cs \<Rightarrow>
          [HandlerCall h cs None
             \<lparr> entitlementChanged = True,
               planChanged = (plan cs \<noteq> Undefined \<and> plan cs \<noteq> Null),
               usageChanged = False \<rparr>])"
  by (simp add: onStatusChanged_def emit_def Let_def split: option.split)

theorem onStatusChanged_immediate_call_witness:
  "trace (onStatusChanged 7 (initialClient\<lparr>currentStatus := Some paidUser\<rparr>)) =
     [HandlerCall 7 paidUser None
        \<lparr> entitlementChanged = True, planChanged = True, usageChanged = False \<rparr>] \<and>
   trace (onStatusChanged 7 initialClient) = [] \<and>
   handlers (onStatusChanged 7 initialClient) = [7]"
  using onStatusChanged_immediate_call [of 7 "initialClient\<lparr>currentStatus := Some paidUser\<rparr>"]
    onStatusChanged_immediate_call [of 7 initialClient]
  by (simp add: initialClient_def paidUser_def)

section \<open>The event loop: what a turn changes\<close>

lemma fold_wake: "fold wake ws c = (if ws = [] then c else c\<lparr>swrCheckInFlight := None\<rparr>)"
  by (induction ws arbitrary: c) (auto simp: wake_def split: waiter.split)

lemma settle_eq:
  "settle p c =
     (if filter (\<lambda>pw. fst pw = p) (waiters c) = []
      then c\<lparr>waiters := filter (\<lambda>pw. fst pw \<noteq> p) (waiters c)\<rparr>
      else c\<lparr>waiters := filter (\<lambda>pw. fst pw \<noteq> p) (waiters c), swrCheckInFlight := None\<rparr>)"
  by (simp add: settle_def fold_wake)

lemma trace_settle [simp]: "trace (settle p c) = trace c"
  by (simp add: settle_eq)

lemma trace_doRefresh_return:
  "trace (doRefresh_return k r c) =
     trace c @
     (case k of
        ByGetUser pid \<Rightarrow> [case r of Inr s \<Rightarrow> Resolved pid s | Inl x \<Rightarrow> Rejected pid (normalizeError x)]
      | ByRefresh pid \<Rightarrow> [case r of Inr s \<Rightarrow> Resolved pid s | Inl x \<Rightarrow> Rejected pid (normalizeError x)]
      | ByAutoSync p \<Rightarrow> [])"
  by (simp add: doRefresh_return_def emit_def split: caller.split sum.split)

lemma trace_autoSyncRefresh:
  "trace (snd (autoSyncRefresh c)) =
     trace c @ (case refreshInFlight c of None \<Rightarrow> [HttpGet (Suc (fresh c))] | Some p \<Rightarrow> [])"
  by (simp add: autoSyncRefresh_def doRefresh_def startOp_def Let_def split: option.split)

lemma trace_notifyHandlers:
  "trace (notifyHandlers next prev c) =
     trace c @
     (if prev \<noteq> None \<and> \<not> hasAnyChange (computeStatusDiff prev next) then []
      else map (\<lambda>h. HandlerCall h next prev (computeStatusDiff prev next)) (handlers c))"
  by (simp add: notifyHandlers_def Let_def)

lemma emitted_pipeline:
  "emitted e now (CallRefresh pid) c = [HttpGet (fresh c)]"
  "emitted e now (CallUnsubscribe h) c = []"
  "emitted e now (FetchDone op r) c =
     (case tasks c op of
        Some (AwaitFetch k) \<Rightarrow>
          (case r of
             Inr next \<Rightarrow> [StorageSet (fresh c) STATUS_CACHE_KEY
                             (CachedValue \<lparr> status = next, fetchedAt = now \<rparr>)]
           | Inl x \<Rightarrow>
               (case k of
                  ByGetUser p \<Rightarrow> [Rejected p (normalizeError x)]
                | ByRefresh p \<Rightarrow> [Rejected p (normalizeError x)]
                | ByAutoSync p \<Rightarrow> []))
      | _ \<Rightarrow> [])"
  by (simp_all add: emitted_def step_def refresh_def unsubscribe_def doRefresh_def startOp_def
      doRefresh_afterFetch_def saveCachedStatus_def finished_def trace_doRefresh_return
      split: option.split task.split sum.split caller.split)


lemma trace_schedulePaidSWRRevalidate:
  "trace (schedulePaidSWRRevalidate c) =
     trace c @ (if swrCheckInFlight c = None then [StorageGet (Suc (fresh c)) LAST_SWR_AT_KEY] else [])"
  by (simp add: schedulePaidSWRRevalidate_def startOp_def Let_def)

lemma trace_enableBackgroundStatusTracking:
  "trace (enableBackgroundStatusTracking e opts c) =
     trace c @
     (if backgroundTrackingEnabled c then []
      else
        (if chromeRuntimeOnMessage e \<and> \<not> messageListenerAttached c
         then [RuntimeOnMessageAddListener] else []) @
        (if chromeAlarms e
         then AlarmsCreate DEFAULT_BG_ALARM_NAME
                (case opts of None \<Rightarrow> DEFAULT_BG_POLL_MINUTES | Some n \<Rightarrow> n) #
              (if \<not> alarmListenerAttached c then [AlarmsOnAlarmAddListener] else [])
         else []) @
        (case refreshInFlight c of None \<Rightarrow> [HttpGet (Suc (fresh c))] | Some p \<Rightarrow> []))"
  by (simp add: enableBackgroundStatusTracking_def trace_autoSyncRefresh emit_def Let_def
      split: option.split)

lemma emitted_calls:
  "emitted e now (CallGetUser pid opts) c =
     (if (case opts of None \<Rightarrow> False | Some x \<Rightarrow> forceRefresh x = Val True)
      then [HttpGet (fresh c)]
      else (case currentStatus c of
              Some s \<Rightarrow> [Resolved pid s]
            | None \<Rightarrow> [StorageGet (fresh c) STATUS_CACHE_KEY]))"
  "emitted e now (CallOnStatusChanged h) c =
     (case currentStatus c of
        None \<Rightarrow> []
      | Some cs \<Rightarrow>
          [HandlerCall h cs None
             \<lparr> entitlementChanged = True,
               planChanged = (plan cs \<noteq> Undefined \<and> plan cs \<noteq> Null),
               usageChanged = False \<rparr>])"
  "emitted e now (CallEnableBackgroundStatusTracking n) c =
     drop (length (trace c)) (trace (enableBackgroundStatusTracking e n c))"
  by (simp_all add: emitted_def step_def getUser_def onStatusChanged_def doRefresh_def
      startOp_def emit_def Let_def split: option.split)

lemma emitted_completions:
  "emitted e now (StorageGetCachedDone op rc) c =
     (case tasks c op of
        Some (AwaitLoad pid) \<Rightarrow>
          (case loadCachedStatus now rc of
             Some cached \<Rightarrow>
               (if paid cached \<and> swrCheckInFlight c = None
                then [StorageGet (Suc (fresh c)) LAST_SWR_AT_KEY] else []) @
               [Resolved pid cached]
           | None \<Rightarrow> [HttpGet (fresh c)])
      | _ \<Rightarrow> [])"
  "emitted e now (StorageGetNumberDone op rn) c =
     (case tasks c op of
        Some AwaitSwrGet \<Rightarrow>
          (if now - (case rn of None \<Rightarrow> 0 | Some n \<Rightarrow> n) < SWR_COOLDOWN_MS then []
           else [StorageSet (fresh c) LAST_SWR_AT_KEY (NumberValue now)])
      | _ \<Rightarrow> [])"
  "emitted e now (StorageSetDone op) c =
     (case tasks c op of
        Some (AwaitSave next k) \<Rightarrow>
          (case k of
             ByGetUser p \<Rightarrow> [Resolved p next]
           | ByRefresh p \<Rightarrow> [Resolved p next]
           | ByAutoSync p \<Rightarrow> [])
      | Some AwaitSwrSet \<Rightarrow>
          (case refreshInFlight c of None \<Rightarrow> [HttpGet (Suc (fresh c))] | Some p \<Rightarrow> [])
      | _ \<Rightarrow> [])"
  by (simp_all add: emitted_def step_def getUser_afterLoad_def doRefresh_def startOp_def
      emit_def finished_def trace_schedulePaidSWRRevalidate
      schedulePaidSWRRevalidate_afterGet_def schedulePaidSWRRevalidate_afterSet_def
      doRefresh_afterSave_def trace_doRefresh_return autoSyncRefresh_def Let_def
      split: option.split task.split caller.split)

lemma emitted_platform:
  "emitted e now (StorageChanged changes) c =
     (if storageListenerAttached c
      then drop (length (trace c)) (trace (storageListener changes c)) else [])"
  "emitted e now (RuntimeMessage msg) c =
     (if messageListenerAttached c \<and> msg = Some CHECKOUT_RETURN_MESSAGE
      then (case refreshInFlight c of None \<Rightarrow> [HttpGet (Suc (fresh c))] | Some p \<Rightarrow> []) @
           [SendResponse]
      else [])"
  "emitted e now (AlarmFired name) c =
     (if alarmListenerAttached c \<and> name = DEFAULT_BG_ALARM_NAME
      then (case refreshInFlight c of None \<Rightarrow> [HttpGet (Suc (fresh c))] | Some p \<Rightarrow> [])
      else [])"
  by (simp_all add: emitted_def step_def messageListener_def alarmListener_def emit_def
      trace_autoSyncRefresh split: option.split)

lemma trace_storageListener:
  "trace (storageListener changes c) =
     trace c @
     (case changes STATUS_CACHE_KEY of
        None \<Rightarrow> []
      | Some change \<Rightarrow>
          (case newValue change of
             Some (CachedValue cached) \<Rightarrow>
               (let prev = (case oldValue change of
                              Some (CachedValue oldCached) \<Rightarrow> Some (status oldCached)
                            | _ \<Rightarrow> None)
                in if prev \<noteq> None \<and> \<not> hasAnyChange (computeStatusDiff prev (status cached))
                   then []
                   else map (\<lambda>h. HandlerCall h (status cached) prev
                                    (computeStatusDiff prev (status cached))) (handlers c))
           | _ \<Rightarrow> []))"
  by (simp add: storageListener_def trace_notifyHandlers Let_def
      split: option.split stored.split)

lemma handlerCall_notifyHandlers:
  assumes "HandlerCall h n p d \<in> set (trace (notifyHandlers next prev c))"
    and "HandlerCall h n p d \<notin> set (trace c)"
  shows "h \<in> set (handlers c) \<and> d = computeStatusDiff p n"
  using assms by (auto simp: trace_notifyHandlers split: if_splits)

lemma handlerCall_storageListener:
  assumes "HandlerCall h n p d \<in> set (drop (length (trace c)) (trace (storageListener changes c)))"
  shows "h \<in> set (handlers c) \<and> d = computeStatusDiff p n"
proof (cases "changes STATUS_CACHE_KEY")
  case None
  with assms show ?thesis by (simp add: storageListener_def)
next
  case (Some change)
  show ?thesis
  proof (cases "newValue change")
    case None
    with Some assms show ?thesis by (simp add: storageListener_def)
  next
    case new: (Some v)
    show ?thesis
    proof (cases v)
      case (NumberValue x)
      with Some new assms show ?thesis by (simp add: storageListener_def)
    next
      case (CachedValue cached)
      with Some new assms show ?thesis
        by (auto simp: storageListener_def trace_notifyHandlers Let_def split: if_splits)
    qed
  qed
qed

lemma emitted_no_handlerCall:
  assumes "\<forall>changes. ev \<noteq> StorageChanged changes" and "\<forall>h. ev \<noteq> CallOnStatusChanged h"
  shows "list_all (\<lambda>x. \<not> isHandlerCall x) (emitted e now ev c)"
  using assms
  by (cases ev)
    (simp_all add: emitted_calls emitted_pipeline emitted_completions emitted_platform
      trace_enableBackgroundStatusTracking isHandlerCall_def
      split: option.split task.split caller.split sum.split)

lemma handlerCall_origin:
  assumes "HandlerCall h n p d \<in> set (emitted e now ev c)"
  shows "(\<exists>changes. ev = StorageChanged changes \<and> storageListenerAttached c \<and>
            h \<in> set (handlers c) \<and> d = computeStatusDiff p n) \<or>
         (ev = CallOnStatusChanged h \<and> p = None \<and> currentStatus c = Some n)"
proof (cases "(\<exists>changes. ev = StorageChanged changes) \<or> (\<exists>h'. ev = CallOnStatusChanged h')")
  case False
  then have "list_all (\<lambda>x. \<not> isHandlerCall x) (emitted e now ev c)"
    by (intro emitted_no_handlerCall) auto
  with assms have "\<not> isHandlerCall (HandlerCall h n p d)"
    by (simp add: list_all_iff)
  then show ?thesis by (simp add: isHandlerCall_def)
next
  case True
  then show ?thesis
  proof
    assume "\<exists>changes. ev = StorageChanged changes"
    with assms show ?thesis
      by (auto simp: emitted_platform dest: handlerCall_storageListener split: if_splits)
  next
    assume "\<exists>h'. ev = CallOnStatusChanged h'"
    with assms show ?thesis
      by (auto simp: emitted_calls split: option.splits)
  qed
qed


lemma trace_step: "trace (step e now ev c) = trace c @ emitted e now ev c"
proof -
  have "\<exists>es. trace (step e now ev c) = trace c @ es"
    by (cases ev)
      (simp_all add: step_def getUser_def refresh_def onStatusChanged_def unsubscribe_def
        trace_enableBackgroundStatusTracking doRefresh_afterFetch_def saveCachedStatus_def
        trace_doRefresh_return getUser_afterLoad_def trace_schedulePaidSWRRevalidate
        schedulePaidSWRRevalidate_afterGet_def schedulePaidSWRRevalidate_afterSet_def
        doRefresh_afterSave_def trace_storageListener messageListener_def alarmListener_def
        trace_autoSyncRefresh autoSyncRefresh_def doRefresh_def startOp_def emit_def
        finished_def Let_def
        split: option.split task.split sum.split)
  then show ?thesis
    by (auto simp: emitted_def)
qed

lemma emitted_no_addListener:
  "StorageOnChangedAddListener \<notin> set (emitted e now ev c)"
proof (cases ev)
  case (StorageChanged changes)
  then show ?thesis
    by (auto simp: emitted_platform trace_storageListener Let_def
        split: option.split stored.split)
qed (auto simp: emitted_calls emitted_pipeline emitted_completions emitted_platform
      trace_enableBackgroundStatusTracking
      split: option.split task.split caller.split sum.split)

section \<open>Refresh pipeline\<close>

text \<open>
  Claim C1. \<open>doRefresh\<close> (and hence \<open>refresh()\<close>) never calls a status-change handler
  itself. No turn of the refresh pipeline (the call of \<open>refresh\<close>, the continuation
  after the fetch, the continuation after the store write) emits a handler call; after a
  successful fetch \<open>doRefresh\<close> sets \<open>currentStatus\<close>, leaves the handler set alone and
  asks the store to persist \<open>{status, fetchedAt = now}\<close> under the cache key. Over all
  turns of the client, a handler call with a diff comes from the storage change-event
  listener, with the diff \<open>computeStatusDiff\<close> computes; the one other call of a handler
  is the replay of \<open>onStatusChanged\<close> to the handler being registered (Claim C10), which
  is no part of the pipeline. The listener is installed once, at client creation, where
  the platform has \<^verbatim>\<open>chrome.storage.onChanged\<close>, and no later turn installs another.
\<close>

theorem doRefresh_notifies_through_storage_only:
  "trace (step e now ev c) = trace c @ emitted e now ev c \<and>
   list_all (\<lambda>x. \<not> isHandlerCall x) (emitted e now (CallRefresh pid) c) \<and>
   list_all (\<lambda>x. \<not> isHandlerCall x) (emitted e now (FetchDone op r) c) \<and>
   list_all (\<lambda>x. \<not> isHandlerCall x) (emitted e now (StorageSetDone op) c) \<and>
   (tasks c op = Some (AwaitFetch k) \<longrightarrow>
      currentStatus (step e now (FetchDone op (Inr next)) c) = Some next \<and>
      handlers (step e now (FetchDone op (Inr next)) c) = handlers c \<and>
      emitted e now (FetchDone op (Inr next)) c =
        [StorageSet (fresh c) STATUS_CACHE_KEY (CachedValue \<lparr> status = next, fetchedAt = now \<rparr>)]) \<and>
   (HandlerCall h n p d \<in> set (emitted e now ev c) \<longrightarrow>
      (\<exists>changes. ev = StorageChanged changes \<and> storageListenerAttached c \<and>
         h \<in> set (handlers c) \<and> d = computeStatusDiff p n) \<or>
      (ev = CallOnStatusChanged h \<and> p = None \<and> currentStatus c = Some n)) \<and>
   (createBillingExtensionsClient e config = Inr c0 \<longrightarrow>
      storageListenerAttached c0 = chromeStorageOnChanged e \<and>
      trace c0 = (if chromeStorageOnChanged e then [StorageOnChangedAddListener] else [])) \<and>
   StorageOnChangedAddListener \<notin> set (emitted e now ev c)"
proof -
  have pipeline:
    "list_all (\<lambda>x. \<not> isHandlerCall x) (emitted e now (CallRefresh pid) c)"
    "list_all (\<lambda>x. \<not> isHandlerCall x) (emitted e now (FetchDone op r) c)"
    "list_all (\<lambda>x. \<not> isHandlerCall x) (emitted e now (StorageSetDone op) c)"
    by (simp_all add: emitted_no_handlerCall)
  have fetched: "tasks c op = Some (AwaitFetch k) \<longrightarrow>
      currentStatus (step e now (FetchDone op (Inr next)) c) = Some next \<and>
      handlers (step e now (FetchDone op (Inr next)) c) = handlers c \<and>
      emitted e now (FetchDone op (Inr next)) c =
        [StorageSet (fresh c) STATUS_CACHE_KEY (CachedValue \<lparr> status = next, fetchedAt = now \<rparr>)]"
    by (simp add: emitted_pipeline step_def doRefresh_afterFetch_def saveCachedStatus_def
        startOp_def finished_def)
  have created: "createBillingExtensionsClient e config = Inr c0 \<longrightarrow>
      storageListenerAttached c0 = chromeStorageOnChanged e \<and>
      trace c0 = (if chromeStorageOnChanged e then [StorageOnChangedAddListener] else [])"
    by (auto simp: createBillingExtensionsClient_def attachStorageStatusListener_def
        initialClient_def emit_def split: option.splits)
  from pipeline fetched created show ?thesis
    using trace_step [of e now ev c] handlerCall_origin [of h n p d e now ev c]
      emitted_no_addListener [of e now ev c]
    by blast
qed


lemma refreshingClient_fields:
  "tasks refreshingClient 0 = Some (AwaitFetch (ByRefresh 1))"
  "fresh refreshingClient = 1"
  "handlers refreshingClient = [7]"
  "currentStatus refreshingClient = None"
  "storageListenerAttached refreshingClient"
  "trace refreshingClient = [StorageOnChangedAddListener, HttpGet 0]"
  by (simp_all add: refreshingClient_def popupClient_def popupEnv_def initialClient_def
      attachStorageStatusListener_def onStatusChanged_def step_def refresh_def doRefresh_def
      startOp_def emit_def)

theorem doRefresh_notifies_through_storage_only_witness:
  "tasks refreshingClient 0 = Some (AwaitFetch (ByRefresh 1)) \<and>
   currentStatus (step popupEnv 1000 (FetchDone 0 (Inr paidUser)) refreshingClient) = Some paidUser \<and>
   handlers (step popupEnv 1000 (FetchDone 0 (Inr paidUser)) refreshingClient) = [7] \<and>
   emitted popupEnv 1000 (FetchDone 0 (Inr paidUser)) refreshingClient =
     [StorageSet 1 STATUS_CACHE_KEY (CachedValue \<lparr> status = paidUser, fetchedAt = 1000 \<rparr>)] \<and>
   HandlerCall 7 paidUser None (computeStatusDiff None paidUser)
     \<in> set (emitted popupEnv 1000
              (StorageChanged
                 [STATUS_CACHE_KEY \<mapsto>
                    \<lparr> oldValue = None,
                      newValue = Some (CachedValue \<lparr> status = paidUser, fetchedAt = 1000 \<rparr>) \<rparr>])
              refreshingClient) \<and>
   createBillingExtensionsClient popupEnv exampleConfig = Inr popupClient \<and>
   trace popupClient = [StorageOnChangedAddListener]"
proof -
  let ?ev = "StorageChanged
                 [STATUS_CACHE_KEY \<mapsto>
                    \<lparr> oldValue = None,
                      newValue = Some (CachedValue \<lparr> status = paidUser, fetchedAt = 1000 \<rparr>) \<rparr>]"
  have task: "tasks refreshingClient 0 = Some (AwaitFetch (ByRefresh 1))"
    by (rule refreshingClient_fields)
  have called: "HandlerCall 7 paidUser None (computeStatusDiff None paidUser)
      \<in> set (emitted popupEnv 1000 ?ev refreshingClient)"
    by (simp add: emitted_def step_def storageListener_def notifyHandlers_def
        refreshingClient_fields)
  have created: "createBillingExtensionsClient popupEnv exampleConfig = Inr popupClient"
    by (simp add: createBillingExtensionsClient_def validateConfig_def exampleConfig_def
        popupClient_def)
  from doRefresh_notifies_through_storage_only
      [of popupEnv 1000 ?ev refreshingClient 1 0 "Inr paidUser" "ByRefresh 1" paidUser
          7 paidUser None "computeStatusDiff None paidUser" exampleConfig popupClient]
    task created
  have "currentStatus (step popupEnv 1000 (FetchDone 0 (Inr paidUser)) refreshingClient) = Some paidUser \<and>
      handlers (step popupEnv 1000 (FetchDone 0 (Inr paidUser)) refreshingClient) = handlers refreshingClient \<and>
      emitted popupEnv 1000 (FetchDone 0 (Inr paidUser)) refreshingClient =
        [StorageSet (fresh refreshingClient) STATUS_CACHE_KEY
           (CachedValue \<lparr> status = paidUser, fetchedAt = 1000 \<rparr>)] \<and>
      trace popupClient =
        (if chromeStorageOnChanged popupEnv then [StorageOnChangedAddListener] else [])"
    by blast
  with task called created show ?thesis
    by (simp add: refreshingClient_fields popupEnv_def)
qed

section \<open>Cache tiers of getUser\<close>

lemma getUser_memory_tier:
  assumes "\<not> (case opts of None \<Rightarrow> False | Some x \<Rightarrow> forceRefresh x = Val True)"
    and "currentStatus c = Some s"
  shows "step e now (CallGetUser pid opts) c = c\<lparr>trace := trace c @ [Resolved pid s]\<rparr>"
  using assms by (simp add: step_def getUser_def emit_def)

lemma getUser_storage_tier_start:
  assumes "\<not> (case opts of None \<Rightarrow> False | Some x \<Rightarrow> forceRefresh x = Val True)"
    and "currentStatus c = None"
  shows "emitted e now (CallGetUser pid opts) c = [StorageGet (fresh c) STATUS_CACHE_KEY] \<and>
         tasks (step e now (CallGetUser pid opts) c) (fresh c) = Some (AwaitLoad pid)"
  using assms by (simp add: emitted_calls step_def getUser_def startOp_def)

lemma getUser_storage_tier_hit:
  assumes "tasks c op = Some (AwaitLoad pid)"
    and "now - fetchedAt cached \<le> 30000"
  shows "currentStatus (step e now (StorageGetCachedDone op (Some cached)) c) = Some (status cached) \<and>
         list_all (\<lambda>x. \<not> isHttpGet x) (emitted e now (StorageGetCachedDone op (Some cached)) c) \<and>
         last (emitted e now (StorageGetCachedDone op (Some cached)) c) = Resolved pid (status cached)"
  using assms
  by (simp add: emitted_completions loadCachedStatus_def DEFAULT_CACHE_TTL_MS_def isHttpGet_def
      step_def getUser_afterLoad_def emit_def schedulePaidSWRRevalidate_def startOp_def
      finished_def Let_def)

lemma getUser_network_tier_forced:
  assumes "case opts of None \<Rightarrow> False | Some x \<Rightarrow> forceRefresh x = Val True"
  shows "emitted e now (CallGetUser pid opts) c = [HttpGet (fresh c)] \<and>
         tasks (step e now (CallGetUser pid opts) c) (fresh c) = Some (AwaitFetch (ByGetUser pid))"
  using assms by (simp add: emitted_calls step_def getUser_def doRefresh_def startOp_def)

lemma getUser_network_tier_miss:
  assumes "tasks c op = Some (AwaitLoad pid)"
    and "rc = None \<or> (\<exists>cached. rc = Some cached \<and> now - fetchedAt cached > 30000)"
  shows "emitted e now (StorageGetCachedDone op rc) c = [HttpGet (fresh c)] \<and>
         tasks (step e now (StorageGetCachedDone op rc) c) (fresh c) = Some (AwaitFetch (ByGetUser pid))"
  using assms
  by (auto simp: emitted_completions loadCachedStatus_def DEFAULT_CACHE_TTL_MS_def
      step_def getUser_afterLoad_def doRefresh_def startOp_def finished_def Let_def)

lemma getUser_network_tier_result:
  "tasks c op = Some (AwaitFetch (ByGetUser pid)) \<Longrightarrow>
     emitted e now (FetchDone op (Inl x)) c = [Rejected pid (normalizeError x)] \<and>
     tasks (step e now (FetchDone op (Inr next)) c) (fresh c) = Some (AwaitSave next (ByGetUser pid))"
  "tasks c op = Some (AwaitSave next (ByGetUser pid)) \<Longrightarrow>
     emitted e now (StorageSetDone op) c = [Resolved pid next]"
  by (simp_all add: emitted_pipeline emitted_completions step_def doRefresh_afterFetch_def
      saveCachedStatus_def startOp_def finished_def)

text \<open>
  Claim C2. \<open>getUser(opts)\<close> answers from the first applicable tier. (1) Without
  \<open>forceRefresh\<close> and with a non-null in-memory \<open>currentStatus\<close>, it resolves to that
  value and does nothing else: no storage access, no request. (2) Otherwise, without
  \<open>forceRefresh\<close>, it reads the persisted cache; when the entry's age \<open>now - fetchedAt\<close>
  is not greater than 30000 ms, it resolves to the entry's status, and that turn starts
  no request. (3) Otherwise (forced, no entry, or an entry older than 30000 ms) it calls
  \<open>doRefresh\<close>, which starts the request, and \<open>getUser\<close> resolves to the fetched status
  once it is saved, or rejects with the normalized error of the request.
\<close>

theorem getUser_three_tiers:
  "(\<not> (case opts of None \<Rightarrow> False | Some x \<Rightarrow> forceRefresh x = Val True) \<and>
      currentStatus c = Some s \<longrightarrow>
      step e now (CallGetUser pid opts) c = c\<lparr>trace := trace c @ [Resolved pid s]\<rparr>) \<and>
   (\<not> (case opts of None \<Rightarrow> False | Some x \<Rightarrow> forceRefresh x = Val True) \<and>
      currentStatus c = None \<longrightarrow>
      emitted e now (CallGetUser pid opts) c = [StorageGet (fresh c) STATUS_CACHE_KEY] \<and>
      tasks (step e now (CallGetUser pid opts) c) (fresh c) = Some (AwaitLoad pid)) \<and>
   (tasks c op = Some (AwaitLoad pid) \<and> now - fetchedAt cached \<le> 30000 \<longrightarrow>
      currentStatus (step e now (StorageGetCachedDone op (Some cached)) c) = Some (status cached) \<and>
      list_all (\<lambda>x. \<not> isHttpGet x) (emitted e now (StorageGetCachedDone op (Some cached)) c) \<and>
      last (emitted e now (StorageGetCachedDone op (Some cached)) c) = Resolved pid (status cached)) \<and>
   ((case opts of None \<Rightarrow> False | Some x \<Rightarrow> forceRefresh x = Val True) \<longrightarrow>
      emitted e now (CallGetUser pid opts) c = [HttpGet (fresh c)] \<and>
      tasks (step e now (CallGetUser pid opts) c) (fresh c) = Some (AwaitFetch (ByGetUser pid))) \<and>
   (tasks c op = Some (AwaitLoad pid) \<and>
      (rc = None \<or> (\<exists>old. rc = Some old \<and> now - fetchedAt old > 30000)) \<longrightarrow>
      emitted e now (StorageGetCachedDone op rc) c = [HttpGet (fresh c)] \<and>
      tasks (step e now (StorageGetCachedDone op rc) c) (fresh c) = Some (AwaitFetch (ByGetUser pid))) \<and>
   (tasks c op = Some (AwaitFetch (ByGetUser pid)) \<longrightarrow>
      emitted e now (FetchDone op (Inl x)) c = [Rejected pid (normalizeError x)] \<and>
      tasks (step e now (FetchDone op (Inr next)) c) (fresh c) = Some (AwaitSave next (ByGetUser pid))) \<and>
   (tasks c op = Some (AwaitSave next (ByGetUser pid)) \<longrightarrow>
      emitted e now (StorageSetDone op) c = [Resolved pid next])"
  using getUser_memory_tier [of opts c s e now pid]
    getUser_storage_tier_start [of opts c e now pid]
    getUser_storage_tier_hit [of c op pid now cached e]
    getUser_network_tier_forced [of opts e now pid c]
    getUser_network_tier_miss [of c op pid rc now e]
    getUser_network_tier_result(1) [of c op pid e now x "next"]
    getUser_network_tier_result(2) [of c op "next" pid e now]
  by blast


lemma popupClient_fields:
  "currentStatus popupClient = None"
  "tasks popupClient = Map.empty"
  "fresh popupClient = 0"
  "trace popupClient = [StorageOnChangedAddListener]"
  "swrCheckInFlight popupClient = None"
  "refreshInFlight popupClient = None"
  "backgroundTrackingEnabled popupClient = False"
  by (simp_all add: popupClient_def popupEnv_def initialClient_def
      attachStorageStatusListener_def emit_def)

lemma loadingClient_fields:
  "tasks loadingClient 0 = Some (AwaitLoad 1)"
  "fresh loadingClient = Suc 0"
  "currentStatus loadingClient = None"
  by (simp_all add: loadingClient_def step_def getUser_def startOp_def popupClient_fields)

lemma fetchingClient_fields:
  "tasks fetchingClient (Suc 0) = Some (AwaitFetch (ByGetUser 1))"
  "fresh fetchingClient = 2"
  by (simp_all add: fetchingClient_def step_def getUser_afterLoad_def loadCachedStatus_def
      DEFAULT_CACHE_TTL_MS_def staleEntry_def doRefresh_def startOp_def finished_def
      loadingClient_fields)

lemma savingClient_fields:
  "tasks savingClient 2 = Some (AwaitSave paidUser (ByGetUser 1))"
  by (simp add: savingClient_def step_def doRefresh_afterFetch_def saveCachedStatus_def
      startOp_def finished_def fetchingClient_fields)

theorem getUser_three_tiers_witness:
  "trace (step popupEnv 5 (CallGetUser 1 None) (popupClient\<lparr>currentStatus := Some paidUser\<rparr>)) =
     [StorageOnChangedAddListener, Resolved 1 paidUser] \<and>
   emitted popupEnv 32000 (CallGetUser 1 None) popupClient = [StorageGet 0 STATUS_CACHE_KEY] \<and>
   tasks loadingClient 0 = Some (AwaitLoad 1) \<and>
   last (emitted popupEnv 31000 (StorageGetCachedDone 0 (Some staleEntry)) loadingClient) =
     Resolved 1 freeUser \<and>
   emitted popupEnv 32000 (StorageGetCachedDone 0 (Some staleEntry)) loadingClient = [HttpGet 1] \<and>
   emitted popupEnv 5 (CallGetUser 1 (Some \<lparr> forceRefresh = Val True \<rparr>))
     (popupClient\<lparr>currentStatus := Some paidUser\<rparr>) = [HttpGet 0] \<and>
   tasks fetchingClient 1 = Some (AwaitFetch (ByGetUser 1)) \<and>
   emitted popupEnv 32100 (FetchDone 1 (Inl (JsError ''AbortError'' ''aborted''))) fetchingClient =
     [Rejected 1 (NetworkError ''Request was aborted'')] \<and>
   tasks savingClient 2 = Some (AwaitSave paidUser (ByGetUser 1)) \<and>
   emitted popupEnv 32200 (StorageSetDone 2) savingClient = [Resolved 1 paidUser]"
proof -
  let ?mem = "popupClient\<lparr>currentStatus := Some paidUser\<rparr>"
  let ?force = "Some \<lparr> forceRefresh = Val True \<rparr>"
  have tier1: "step popupEnv 5 (CallGetUser 1 None) ?mem = ?mem\<lparr>trace := trace ?mem @ [Resolved 1 paidUser]\<rparr>"
    using getUser_three_tiers [of None ?mem paidUser popupEnv 5 1]
    by simp
  have tier2_start:
    "emitted popupEnv 32000 (CallGetUser 1 None) popupClient = [StorageGet (fresh popupClient) STATUS_CACHE_KEY]"
    using getUser_three_tiers [of None popupClient _ popupEnv 32000 1]
    by (simp add: popupClient_fields)
  have fresh_age: "31000 - fetchedAt staleEntry \<le> 30000"
    by (simp add: staleEntry_def)
  have tier2_hit:
    "last (emitted popupEnv 31000 (StorageGetCachedDone 0 (Some staleEntry)) loadingClient) =
       Resolved 1 (status staleEntry)"
    using getUser_three_tiers [of None loadingClient _ popupEnv 31000 1 0 staleEntry]
      loadingClient_fields(1) fresh_age
    by blast
  have stale_age: "Some staleEntry = None \<or>
      (\<exists>old. Some staleEntry = Some old \<and> 32000 - fetchedAt old > 30000)"
    by (simp add: staleEntry_def)
  have tier3_stale:
    "emitted popupEnv 32000 (StorageGetCachedDone 0 (Some staleEntry)) loadingClient =
       [HttpGet (fresh loadingClient)]"
    using getUser_three_tiers [of None loadingClient _ popupEnv 32000 1 0 _ "Some staleEntry"]
      loadingClient_fields(1) stale_age
    by blast
  have tier3_forced:
    "emitted popupEnv 5 (CallGetUser 1 ?force) ?mem = [HttpGet (fresh ?mem)]"
    using getUser_three_tiers [of ?force ?mem _ popupEnv 5 1]
    by simp
  have tier3_failed:
    "emitted popupEnv 32100 (FetchDone 1 (Inl (JsError ''AbortError'' ''aborted''))) fetchingClient =
       [Rejected 1 (normalizeError (JsError ''AbortError'' ''aborted''))]"
    using getUser_three_tiers [of None fetchingClient _ popupEnv 32100 1 1 _ _
        "JsError ''AbortError'' ''aborted''"]
      fetchingClient_fields(1)
    by simp
  have tier3_saved:
    "emitted popupEnv 32200 (StorageSetDone 2) savingClient = [Resolved 1 paidUser]"
    using getUser_three_tiers [of None savingClient _ popupEnv 32200 1 2 _ _ _ paidUser]
      savingClient_fields
    by blast
  from tier1 tier2_start tier2_hit tier3_stale tier3_forced tier3_failed tier3_saved
  show ?thesis
    by (simp add: popupClient_fields loadingClient_fields fetchingClient_fields
        savingClient_fields staleEntry_def normalizeError_def)
qed

section \<open>De-duplication of autoSyncRefresh\<close>

lemma autoSyncRefresh_in_flight:
  "refreshInFlight c = Some p \<Longrightarrow> autoSyncRefresh c = (p, c)"
  by (simp add: autoSyncRefresh_def)

lemma autoSyncRefresh_idle:
  assumes "refreshInFlight c = None"
  shows "fst (autoSyncRefresh c) = fresh c"
    and "refreshInFlight (snd (autoSyncRefresh c)) = Some (fresh c)"
    and "trace (snd (autoSyncRefresh c)) = trace c @ [HttpGet (Suc (fresh c))]"
    and "tasks (snd (autoSyncRefresh c)) (Suc (fresh c)) = Some (AwaitFetch (ByAutoSync (fresh c)))"
  using assms by (simp_all add: autoSyncRefresh_def doRefresh_def startOp_def Let_def)

lemma autoSyncRefresh_times_in_flight:
  "refreshInFlight c = Some p \<Longrightarrow> autoSyncRefresh_times n c = (replicate n p, c)"
  by (induction n) (simp_all add: autoSyncRefresh_in_flight)

lemma autoSyncRefresh_times_idle:
  assumes "refreshInFlight c = None"
  shows "autoSyncRefresh_times (Suc n) c = (replicate (Suc n) (fresh c), snd (autoSyncRefresh c))"
proof -
  obtain p c1 where call: "autoSyncRefresh c = (p, c1)"
    by (cases "autoSyncRefresh c")
  with autoSyncRefresh_idle(1,2) [OF assms] have "p = fresh c" "refreshInFlight c1 = Some (fresh c)"
    by simp_all
  with call show ?thesis
    by (simp add: autoSyncRefresh_times_in_flight)
qed

lemma autoSync_completion:
  "tasks c op = Some (AwaitFetch (ByAutoSync p)) \<Longrightarrow>
     refreshInFlight (step e now (FetchDone op (Inl x)) c) = None \<and>
     refreshInFlight (step e now (FetchDone op (Inr next)) c) = refreshInFlight c \<and>
     tasks (step e now (FetchDone op (Inr next)) c) (fresh c) = Some (AwaitSave next (ByAutoSync p))"
  "tasks c op = Some (AwaitSave next (ByAutoSync p)) \<Longrightarrow>
     refreshInFlight (step e now (StorageSetDone op) c) = None"
  by (simp_all add: step_def doRefresh_afterFetch_def doRefresh_afterSave_def
      doRefresh_return_def settle_eq saveCachedStatus_def startOp_def finished_def)


lemma refreshInFlight_autoSyncRefresh:
  "refreshInFlight c = Some p \<Longrightarrow> refreshInFlight (snd (autoSyncRefresh c)) = Some p"
  by (simp add: autoSyncRefresh_def)

lemma refreshInFlight_notifyHandlers [simp]:
  "refreshInFlight (notifyHandlers n p c) = refreshInFlight c"
  by (simp add: notifyHandlers_def Let_def)

lemma refreshInFlight_storageListener [simp]:
  "refreshInFlight (storageListener changes c) = refreshInFlight c"
  by (simp add: storageListener_def Let_def split: option.split stored.split)

lemma refreshInFlight_kept:
  assumes "refreshInFlight c = Some p"
  shows "refreshInFlight (step e now ev c) = Some p \<or>
         (\<exists>op x q. ev = FetchDone op (Inl x) \<and> tasks c op = Some (AwaitFetch (ByAutoSync q))) \<or>
         (\<exists>op next q. ev = StorageSetDone op \<and> tasks c op = Some (AwaitSave next (ByAutoSync q)))"
  using assms
  by (cases ev)
    (simp_all add: step_def getUser_def refresh_def onStatusChanged_def unsubscribe_def
      enableBackgroundStatusTracking_def doRefresh_afterFetch_def saveCachedStatus_def
      doRefresh_return_def getUser_afterLoad_def schedulePaidSWRRevalidate_def
      schedulePaidSWRRevalidate_afterGet_def schedulePaidSWRRevalidate_afterSet_def
      doRefresh_afterSave_def messageListener_def alarmListener_def
      autoSyncRefresh_def doRefresh_def startOp_def emit_def
      finished_def Let_def
      split: option.split task.split sum.split caller.split)


lemma deduped_trace [simp]: "deduped (c\<lparr>trace := x\<rparr>) = deduped c"
  by (simp add: deduped_def autoSyncTask_def)

lemma deduped_emit [simp]: "deduped (emit x c) = deduped c"
  by (simp add: emit_def)

lemma deduped_currentStatus [simp]: "deduped (c\<lparr>currentStatus := x\<rparr>) = deduped c"
  by (simp add: deduped_def autoSyncTask_def)

lemma deduped_handlers [simp]: "deduped (c\<lparr>handlers := x\<rparr>) = deduped c"
  by (simp add: deduped_def autoSyncTask_def)

lemma deduped_swr [simp]: "deduped (c\<lparr>swrCheckInFlight := x\<rparr>) = deduped c"
  by (simp add: deduped_def autoSyncTask_def)

lemma deduped_waiters [simp]: "deduped (c\<lparr>waiters := x\<rparr>) = deduped c"
  by (simp add: deduped_def autoSyncTask_def)

lemma deduped_flags [simp]:
  "deduped (c\<lparr>backgroundTrackingEnabled := b\<rparr>) = deduped c"
  "deduped (c\<lparr>messageListenerAttached := b\<rparr>) = deduped c"
  "deduped (c\<lparr>alarmListenerAttached := b\<rparr>) = deduped c"
  "deduped (c\<lparr>storageListenerAttached := b\<rparr>) = deduped c"
  by (simp_all add: deduped_def autoSyncTask_def)

lemma deduped_settle [simp]: "deduped (settle p c) = deduped c"
  by (simp add: settle_eq)

lemma deduped_notifyHandlers [simp]: "deduped (notifyHandlers n p c) = deduped c"
  by (simp add: notifyHandlers_def Let_def)

text \<open>Starting an operation whose continuation is not a body of \<open>autoSyncRefresh\<close>.\<close>

lemma deduped_startOp_other:
  assumes "deduped c" and "\<forall>q. t \<noteq> AwaitFetch (ByAutoSync q)" and "\<forall>n q. t \<noteq> AwaitSave n (ByAutoSync q)"
  shows "deduped (startOp mk t c)"
proof -
  from assms(1) have nofresh: "tasks c (fresh c) = None"
    by (cases "tasks c (fresh c)") (auto simp: deduped_def)
  have same: "autoSyncTask (startOp mk t c) op q = autoSyncTask c op q" for op q
    using assms(2,3) nofresh
    by (auto simp: autoSyncTask_def startOp_def split: task.split caller.split)
  have fr: "refreshInFlight (startOp mk t c) = refreshInFlight c"
    by (simp add: startOp_def)
  have lt: "\<forall>op t'. tasks (startOp mk t c) op = Some t' \<longrightarrow> op < fresh (startOp mk t c)"
    using assms(1) by (auto simp: deduped_def startOp_def less_Suc_eq)
  from assms(1) lt show ?thesis
    unfolding deduped_def same fr by blast
qed


lemma deduped_finished_other:
  assumes "deduped c" and "\<forall>q. \<not> autoSyncTask c op q"
  shows "deduped (finished op c)"
proof -
  have same: "autoSyncTask (finished op c) op' q = autoSyncTask c op' q" for op' q
    using assms(2) by (auto simp: autoSyncTask_def finished_def)
  have fr: "refreshInFlight (finished op c) = refreshInFlight c"
    by (simp add: finished_def)
  have lt: "\<forall>op' t'. tasks (finished op c) op' = Some t' \<longrightarrow> op' < fresh (finished op c)"
    using assms(1) by (auto simp: deduped_def finished_def)
  from assms(1) lt show ?thesis
    unfolding deduped_def same fr by blast
qed

lemma deduped_completed:
  assumes "deduped c" and "autoSyncTask c op q"
  shows "deduped ((finished op c)\<lparr>refreshInFlight := None\<rparr>)"
proof -
  have none: "\<not> autoSyncTask ((finished op c)\<lparr>refreshInFlight := None\<rparr>) op' q'" for op' q'
  proof
    assume a: "autoSyncTask ((finished op c)\<lparr>refreshInFlight := None\<rparr>) op' q'"
    then have "op' \<noteq> op" by (auto simp: autoSyncTask_def finished_def)
    with a have "autoSyncTask c op' q'" by (simp add: autoSyncTask_def finished_def)
    with assms have "op' = op" unfolding deduped_def by blast
    with \<open>op' \<noteq> op\<close> show False by simp
  qed
  have lt: "\<forall>op' t'. tasks ((finished op c)\<lparr>refreshInFlight := None\<rparr>) op' = Some t' \<longrightarrow>
      op' < fresh ((finished op c)\<lparr>refreshInFlight := None\<rparr>)"
    using assms(1) by (auto simp: deduped_def finished_def)
  from lt none show ?thesis
    unfolding deduped_def by simp
qed

lemma deduped_moved:
  assumes "deduped c" and "autoSyncTask c op q"
  shows "deduped (startOp mk (AwaitSave n (ByAutoSync q)) (finished op c))"
proof -
  let ?c = "startOp mk (AwaitSave n (ByAutoSync q)) (finished op c)"
  from assms(1) have nofresh: "tasks c (fresh c) = None"
    by (cases "tasks c (fresh c)") (auto simp: deduped_def)
  from assms have marker: "refreshInFlight c = Some q"
    unfolding deduped_def by blast
  have only: "autoSyncTask ?c op' q' \<longleftrightarrow> op' = fresh c \<and> q' = q" for op' q'
  proof (cases "op' = fresh c")
    case True
    then show ?thesis by (auto simp: autoSyncTask_def startOp_def finished_def)
  next
    case False
    show ?thesis
    proof
      assume a: "autoSyncTask ?c op' q'"
      with False have "op' \<noteq> op" by (auto simp: autoSyncTask_def startOp_def finished_def)
      with a False have "autoSyncTask c op' q'" by (simp add: autoSyncTask_def startOp_def finished_def)
      with assms have "op' = op" unfolding deduped_def by blast
      with \<open>op' \<noteq> op\<close> show "op' = fresh c \<and> q' = q" by simp
    next
      assume "op' = fresh c \<and> q' = q"
      with False show "autoSyncTask ?c op' q'" by simp
    qed
  qed
  have fr: "refreshInFlight ?c = Some q"
    using marker by (simp add: startOp_def finished_def)
  have lt: "\<forall>op' t'. tasks ?c op' = Some t' \<longrightarrow> op' < fresh ?c"
    using assms(1) by (auto simp: deduped_def startOp_def finished_def less_Suc_eq)
  from lt show ?thesis
    unfolding deduped_def only fr by blast
qed

lemma deduped_autoSyncRefresh:
  assumes "deduped c"
  shows "deduped (snd (autoSyncRefresh c))"
proof (cases "refreshInFlight c")
  case (Some p)
  with assms show ?thesis by (simp add: autoSyncRefresh_def)
next
  case None
  let ?c = "snd (autoSyncRefresh c)"
  from assms None have notask: "\<not> autoSyncTask c op q" for op q
    unfolding deduped_def by fastforce
  from assms have nofresh: "tasks c (Suc (fresh c)) = None"
    by (cases "tasks c (Suc (fresh c))") (auto simp: deduped_def)
  have only: "autoSyncTask ?c op q \<longleftrightarrow> op = Suc (fresh c) \<and> q = fresh c" for op q
    using notask [of op q] None
    by (auto simp: autoSyncTask_def autoSyncRefresh_def doRefresh_def startOp_def Let_def)
  have fr: "refreshInFlight ?c = Some (fresh c)"
    using None by (simp add: autoSyncRefresh_def Let_def)
  have lt: "\<forall>op' t'. tasks ?c op' = Some t' \<longrightarrow> op' < fresh ?c"
    using assms None
    by (auto simp: deduped_def autoSyncRefresh_def doRefresh_def startOp_def Let_def less_Suc_eq)
  from lt show ?thesis
    unfolding deduped_def only fr by blast
qed


lemma deduped_fresh_bump:
  "deduped c \<Longrightarrow> deduped (c\<lparr>fresh := Suc (fresh c)\<rparr>)"
  by (auto simp: deduped_def autoSyncTask_def less_Suc_eq)

lemma startOp_currentStatus:
  "startOp mk t (c\<lparr>currentStatus := x\<rparr>) = (startOp mk t c)\<lparr>currentStatus := x\<rparr>"
  by (simp add: startOp_def)

lemma deduped_doRefresh:
  "deduped c \<Longrightarrow> (\<forall>q. k \<noteq> ByAutoSync q) \<Longrightarrow> deduped (doRefresh k c)"
  by (simp add: doRefresh_def deduped_startOp_other)

lemma deduped_schedulePaidSWRRevalidate:
  "deduped c \<Longrightarrow> deduped (schedulePaidSWRRevalidate c)"
  by (simp add: schedulePaidSWRRevalidate_def Let_def deduped_startOp_other deduped_fresh_bump)

lemma deduped_getUser: "deduped c \<Longrightarrow> deduped (getUser pid opts c)"
  by (simp add: getUser_def Let_def deduped_startOp_other deduped_doRefresh split: option.split)

lemma deduped_enableBackgroundStatusTracking:
  "deduped c \<Longrightarrow> deduped (enableBackgroundStatusTracking e opts c)"
  by (simp add: enableBackgroundStatusTracking_def Let_def deduped_autoSyncRefresh)

lemma deduped_fetchDone:
  assumes "deduped c"
  shows "deduped (step e now (FetchDone op r) c)"
proof (cases "tasks c op")
  case None
  with assms show ?thesis by (simp add: step_def)
next
  case (Some t)
  show ?thesis
  proof (cases "\<exists>k. t = AwaitFetch k")
    case False
    with Some assms show ?thesis by (cases t) (simp_all add: step_def)
  next
    case True
    then obtain k where t: "t = AwaitFetch k" by blast
    show ?thesis
    proof (cases "\<exists>q. k = ByAutoSync q")
      case True
      then obtain q where k: "k = ByAutoSync q" by blast
      with Some t have task: "autoSyncTask c op q" by (simp add: autoSyncTask_def)
      show ?thesis
      proof (cases r)
        case (Inl x)
        with Some t k show ?thesis
          using deduped_completed [OF assms task]
          by (simp add: step_def doRefresh_afterFetch_def doRefresh_return_def)
      next
        case (Inr nxt)
        with Some t k show ?thesis
          using deduped_moved [OF assms task]
          by (simp add: step_def doRefresh_afterFetch_def saveCachedStatus_def
              startOp_currentStatus)
      qed
    next
      case False
      with Some t have "\<forall>q. \<not> autoSyncTask c op q"
        by (cases k) (simp_all add: autoSyncTask_def)
      with assms have fin: "deduped (finished op c)" by (rule deduped_finished_other)
      from False have other: "\<forall>n q. AwaitSave n' k \<noteq> AwaitSave n (ByAutoSync q)" for n'
        by simp
      show ?thesis
      proof (cases r)
        case (Inl x)
        with Some t False fin show ?thesis
          by (cases k) (simp_all add: step_def doRefresh_afterFetch_def doRefresh_return_def)
      next
        case (Inr nxt)
        with Some t fin other [of nxt] show ?thesis
          by (simp add: step_def doRefresh_afterFetch_def saveCachedStatus_def
              startOp_currentStatus deduped_startOp_other)
      qed
    qed
  qed
qed

lemma deduped_storageGetCachedDone:
  assumes "deduped c"
  shows "deduped (step e now (StorageGetCachedDone op r) c)"
proof (cases "tasks c op")
  case None
  with assms show ?thesis by (simp add: step_def)
next
  case (Some t)
  then have "\<forall>q. \<not> autoSyncTask c op q \<or> (\<forall>pid. t \<noteq> AwaitLoad pid)"
    by (auto simp: autoSyncTask_def)
  with assms have fin: "(\<exists>pid. t = AwaitLoad pid) \<longrightarrow> deduped (finished op c)"
    by (auto intro: deduped_finished_other)
  with Some assms show ?thesis
    by (cases t)
      (auto simp: step_def getUser_afterLoad_def Let_def deduped_schedulePaidSWRRevalidate
        deduped_doRefresh split: option.split)
qed

lemma deduped_storageGetNumberDone:
  assumes "deduped c"
  shows "deduped (step e now (StorageGetNumberDone op r) c)"
proof (cases "tasks c op")
  case None
  with assms show ?thesis by (simp add: step_def)
next
  case (Some t)
  then have "t = AwaitSwrGet \<longrightarrow> (\<forall>q. \<not> autoSyncTask c op q)"
    by (auto simp: autoSyncTask_def)
  with assms have fin: "t = AwaitSwrGet \<longrightarrow> deduped (finished op c)"
    by (auto intro: deduped_finished_other)
  with Some assms show ?thesis
    by (cases t)
      (auto simp: step_def schedulePaidSWRRevalidate_afterGet_def Let_def
        deduped_startOp_other)
qed

lemma deduped_storageSetDone:
  assumes "deduped c"
  shows "deduped (step e now (StorageSetDone op) c)"
proof (cases "tasks c op")
  case None
  with assms show ?thesis by (simp add: step_def)
next
  case (Some t)
  show ?thesis
  proof (cases t)
    case (AwaitSave n k)
    show ?thesis
    proof (cases k)
      case (ByAutoSync q)
      with Some AwaitSave have "autoSyncTask c op q" by (simp add: autoSyncTask_def)
      from deduped_completed [OF assms this] Some AwaitSave ByAutoSync show ?thesis
        by (simp add: step_def doRefresh_afterSave_def doRefresh_return_def)
    next
      case (ByGetUser pid)
      with Some AwaitSave have "\<forall>q. \<not> autoSyncTask c op q" by (simp add: autoSyncTask_def)
      with assms have "deduped (finished op c)" by (rule deduped_finished_other)
      with Some AwaitSave ByGetUser show ?thesis
        by (simp add: step_def doRefresh_afterSave_def doRefresh_return_def)
    next
      case (ByRefresh pid)
      with Some AwaitSave have "\<forall>q. \<not> autoSyncTask c op q" by (simp add: autoSyncTask_def)
      with assms have "deduped (finished op c)" by (rule deduped_finished_other)
      with Some AwaitSave ByRefresh show ?thesis
        by (simp add: step_def doRefresh_afterSave_def doRefresh_return_def)
    qed
  next
    case AwaitSwrSet
    with Some have "\<forall>q. \<not> autoSyncTask c op q" by (simp add: autoSyncTask_def)
    with assms have "deduped (finished op c)" by (rule deduped_finished_other)
    then have "deduped (snd (autoSyncRefresh (finished op c)))" by (rule deduped_autoSyncRefresh)
    with Some AwaitSwrSet show ?thesis
      by (cases "autoSyncRefresh (finished op c)")
        (simp add: step_def schedulePaidSWRRevalidate_afterSet_def)
  qed (use Some assms in \<open>simp_all add: step_def\<close>)
qed

lemma deduped_step:
  assumes "deduped c"
  shows "deduped (step e now ev c)"
proof (cases ev)
  case (FetchDone op r)
  with assms show ?thesis by (simp add: deduped_fetchDone)
next
  case (StorageGetCachedDone op r)
  with assms show ?thesis by (simp add: deduped_storageGetCachedDone)
next
  case (StorageGetNumberDone op r)
  with assms show ?thesis by (simp add: deduped_storageGetNumberDone)
next
  case (StorageSetDone op)
  with assms show ?thesis by (simp add: deduped_storageSetDone)
qed (use assms in \<open>simp_all add: step_def deduped_getUser refresh_def deduped_doRefresh
      onStatusChanged_def unsubscribe_def deduped_enableBackgroundStatusTracking Let_def
      storageListener_def messageListener_def alarmListener_def deduped_autoSyncRefresh
      split: option.split stored.split\<close>)

lemma deduped_initialClient: "deduped initialClient"
  by (simp add: deduped_def autoSyncTask_def initialClient_def)

lemma deduped_run: "deduped c \<Longrightarrow> deduped (run e evs c)"
  by (induction evs arbitrary: c) (auto simp: deduped_step)

lemma deduped_created:
  "createBillingExtensionsClient e config = Inr c \<Longrightarrow> deduped c"
  by (auto simp: createBillingExtensionsClient_def attachStorageStatusListener_def
      deduped_initialClient split: option.splits if_splits)


text \<open>
  Claim C5. \<open>autoSyncRefresh\<close> de-duplicates through one shared in-flight promise. A
  call made while a refresh is in flight returns the in-flight promise and does nothing
  else; a call made while none is in flight starts one request and sets the marker; so
  any number of calls in a row, from an idle client, return one and the same promise and
  start exactly one request. The marker is reset to null when the underlying refresh
  completes, in both cases: when the request fails, and when it succeeds and the status
  has been saved. Until then no turn of the client changes the marker, so every call in
  between joins the same refresh; and in every state the client can reach, at most one
  body of \<open>autoSyncRefresh\<close> is suspended, the one the marker names.
\<close>

theorem autoSyncRefresh_single_flight:
  "(refreshInFlight c = Some p \<longrightarrow> autoSyncRefresh c = (p, c)) \<and>
   (refreshInFlight c = None \<longrightarrow>
      fst (autoSyncRefresh c) = fresh c \<and>
      refreshInFlight (snd (autoSyncRefresh c)) = Some (fresh c) \<and>
      trace (snd (autoSyncRefresh c)) = trace c @ [HttpGet (Suc (fresh c))] \<and>
      tasks (snd (autoSyncRefresh c)) (Suc (fresh c)) = Some (AwaitFetch (ByAutoSync (fresh c))) \<and>
      autoSyncRefresh_times (Suc n) c = (replicate (Suc n) (fresh c), snd (autoSyncRefresh c))) \<and>
   (tasks c op = Some (AwaitFetch (ByAutoSync q)) \<longrightarrow>
      refreshInFlight (step e now (FetchDone op (Inl x)) c) = None \<and>
      refreshInFlight (step e now (FetchDone op (Inr fetched)) c) = refreshInFlight c \<and>
      tasks (step e now (FetchDone op (Inr fetched)) c) (fresh c) = Some (AwaitSave fetched (ByAutoSync q))) \<and>
   (tasks c op = Some (AwaitSave fetched (ByAutoSync q)) \<longrightarrow>
      refreshInFlight (step e now (StorageSetDone op) c) = None) \<and>
   (refreshInFlight c = Some p \<and> refreshInFlight (step e now ev c) \<noteq> Some p \<longrightarrow>
      (\<exists>op' x' q'. ev = FetchDone op' (Inl x') \<and> tasks c op' = Some (AwaitFetch (ByAutoSync q'))) \<or>
      (\<exists>op' s q'. ev = StorageSetDone op' \<and> tasks c op' = Some (AwaitSave s (ByAutoSync q')))) \<and>
   (createBillingExtensionsClient e config = Inr c0 \<longrightarrow> deduped (run e evs c0))"
  using autoSyncRefresh_in_flight [of c p]
    autoSyncRefresh_idle [of c]
    autoSyncRefresh_times_idle [of c n]
    autoSync_completion(1) [of c op q e now x fetched]
    autoSync_completion(2) [of c op fetched q e now]
    refreshInFlight_kept [of c p e now ev]
    deduped_run [OF deduped_created, of e config c0 e evs]
  by blast

lemma syncingClient_fields:
  "refreshInFlight syncingClient = Some 0"
  "tasks syncingClient (Suc 0) = Some (AwaitFetch (ByAutoSync 0))"
  "fresh syncingClient = 2"
  "trace syncingClient = [StorageOnChangedAddListener, HttpGet (Suc 0)]"
  by (simp_all add: syncingClient_def autoSyncRefresh_def doRefresh_def startOp_def
      popupClient_fields Let_def)

lemma syncedClient_fields:
  "refreshInFlight syncedClient = Some 0"
  "tasks syncedClient 2 = Some (AwaitSave paidUser (ByAutoSync 0))"
  by (simp_all add: syncedClient_def step_def doRefresh_afterFetch_def saveCachedStatus_def
      startOp_def finished_def syncingClient_fields)

theorem autoSyncRefresh_single_flight_witness:
  "refreshInFlight popupClient = None \<and>
   autoSyncRefresh_times 3 popupClient = ([0, 0, 0], syncingClient) \<and>
   trace syncingClient = [StorageOnChangedAddListener, HttpGet 1] \<and>
   refreshInFlight syncingClient = Some 0 \<and>
   autoSyncRefresh syncingClient = (0, syncingClient) \<and>
   tasks syncingClient 1 = Some (AwaitFetch (ByAutoSync 0)) \<and>
   refreshInFlight (step popupEnv 10 (FetchDone 1 (Inl (JsString ''offline''))) syncingClient) = None \<and>
   refreshInFlight syncedClient = Some 0 \<and>
   tasks syncedClient 2 = Some (AwaitSave paidUser (ByAutoSync 0)) \<and>
   refreshInFlight (step popupEnv 20 (StorageSetDone 2) syncedClient) = None \<and>
   createBillingExtensionsClient popupEnv exampleConfig = Inr popupClient \<and>
   deduped (run popupEnv [(5, RuntimeMessage (Some CHECKOUT_RETURN_MESSAGE)), (6, AlarmFired DEFAULT_BG_ALARM_NAME)]
              popupClient)"
proof -
  let ?fail = "FetchDone 1 (Inl (JsString ''offline''))"
  let ?evs = "[(5, RuntimeMessage (Some CHECKOUT_RETURN_MESSAGE)), (6, AlarmFired DEFAULT_BG_ALARM_NAME)]"
  have idle: "refreshInFlight popupClient = None"
    by (rule popupClient_fields)
  have busy: "refreshInFlight syncingClient = Some 0"
    by (rule syncingClient_fields)
  have fetching: "tasks syncingClient 1 = Some (AwaitFetch (ByAutoSync 0))"
    by (simp add: syncingClient_fields)
  have saving: "tasks syncedClient 2 = Some (AwaitSave paidUser (ByAutoSync 0))"
    by (rule syncedClient_fields)
  have created: "createBillingExtensionsClient popupEnv exampleConfig = Inr popupClient"
    by (simp add: createBillingExtensionsClient_def validateConfig_def exampleConfig_def
        popupClient_def)
  have group: "autoSyncRefresh_times 3 popupClient = ([0, 0, 0], syncingClient)"
    using autoSyncRefresh_single_flight [where c = popupClient and n = 2] idle
    by (simp add: numeral_3_eq_3 syncingClient_def popupClient_fields)
  have joined: "autoSyncRefresh syncingClient = (0, syncingClient)"
    using autoSyncRefresh_single_flight [where c = syncingClient and p = 0] busy by blast
  have failed: "refreshInFlight (step popupEnv 10 ?fail syncingClient) = None"
    using autoSyncRefresh_single_flight [where c = syncingClient and op = 1 and q = 0
        and e = popupEnv and now = 10 and x = "JsString ''offline''"]
      fetching by blast
  have saved: "refreshInFlight (step popupEnv 20 (StorageSetDone 2) syncedClient) = None"
    using autoSyncRefresh_single_flight [where c = syncedClient and op = 2 and q = 0
        and e = popupEnv and now = 20 and fetched = paidUser]
      saving by blast
  have cleared: "refreshInFlight syncingClient = Some 0 \<and>
      refreshInFlight (step popupEnv 10 ?fail syncingClient) \<noteq> Some 0"
    using busy failed by simp
  have reach: "deduped (run popupEnv ?evs popupClient)"
    using autoSyncRefresh_single_flight [where c = syncingClient and p = 0 and e = popupEnv
        and now = 10 and ev = ?fail and config = exampleConfig and ?c0.0 = popupClient
        and evs = ?evs]
      created cleared by blast
  from idle group joined busy fetching failed saving saved created reach
  show ?thesis
    by (simp add: syncingClient_fields syncedClient_fields)
qed

section \<open>Stale-while-revalidate gate\<close>

lemma getUser_persisted_hit:
  assumes "tasks c op = Some (AwaitLoad pid)" and "loadCachedStatus now rc = Some s"
  shows "step e now (StorageGetCachedDone op rc) c =
           emit (Resolved pid s)
             ((if paid s then schedulePaidSWRRevalidate else (\<lambda>c'. c'))
                ((finished op c)\<lparr>currentStatus := Some s\<rparr>))"
  using assms by (simp add: step_def getUser_afterLoad_def Let_def)

lemma gate_entry:
  "swrCheckInFlight c \<noteq> None \<Longrightarrow> schedulePaidSWRRevalidate c = c"
  "swrCheckInFlight c = None \<Longrightarrow>
     trace (schedulePaidSWRRevalidate c) = trace c @ [StorageGet (Suc (fresh c)) LAST_SWR_AT_KEY] \<and>
     swrCheckInFlight (schedulePaidSWRRevalidate c) = Some (fresh c) \<and>
     tasks (schedulePaidSWRRevalidate c) (Suc (fresh c)) = Some AwaitSwrGet"
  by (simp_all add: schedulePaidSWRRevalidate_def startOp_def Let_def)

lemma gate_cooldown:
  assumes "tasks c op = Some AwaitSwrGet"
  shows "now - (case r of None \<Rightarrow> 0 | Some n \<Rightarrow> n) < 5000 \<Longrightarrow>
           emitted e now (StorageGetNumberDone op r) c = [] \<and>
           swrCheckInFlight (step e now (StorageGetNumberDone op r) c) = None \<and>
           refreshInFlight (step e now (StorageGetNumberDone op r) c) = refreshInFlight c"
    and "\<not> now - (case r of None \<Rightarrow> 0 | Some n \<Rightarrow> n) < 5000 \<Longrightarrow>
           emitted e now (StorageGetNumberDone op r) c =
             [StorageSet (fresh c) LAST_SWR_AT_KEY (NumberValue now)] \<and>
           tasks (step e now (StorageGetNumberDone op r) c) (fresh c) = Some AwaitSwrSet \<and>
           refreshInFlight (step e now (StorageGetNumberDone op r) c) = refreshInFlight c"
  using assms
  by (simp_all add: emitted_completions SWR_COOLDOWN_MS_def step_def
      schedulePaidSWRRevalidate_afterGet_def startOp_def finished_def Let_def)

lemma gate_revalidate:
  assumes "tasks c op = Some AwaitSwrSet"
  shows "step e now (StorageSetDone op) c =
           (case autoSyncRefresh (finished op c) of
              (p, c1) \<Rightarrow> c1\<lparr>waiters := waiters c1 @ [(p, SwrCheck)]\<rparr>)"
    and "emitted e now (StorageSetDone op) c =
           (case refreshInFlight c of None \<Rightarrow> [HttpGet (Suc (fresh c))] | Some p \<Rightarrow> [])"
  using assms
  by (simp_all add: emitted_completions step_def schedulePaidSWRRevalidate_afterSet_def)

lemma gate_order:
  assumes "tasks c op = Some AwaitSwrGet"
    and "\<not> now - (case r of None \<Rightarrow> 0 | Some n \<Rightarrow> n) < 5000"
    and "refreshInFlight c = None"
  shows "trace (run e [(now, StorageGetNumberDone op r), (now', StorageSetDone (fresh c))] c) =
           trace c @ [StorageSet (fresh c) LAST_SWR_AT_KEY (NumberValue now),
                      HttpGet (Suc (Suc (fresh c)))]"
proof -
  let ?c1 = "step e now (StorageGetNumberDone op r) c"
  from gate_cooldown(2) [OF assms(1,2)]
  have em: "emitted e now (StorageGetNumberDone op r) c =
              [StorageSet (fresh c) LAST_SWR_AT_KEY (NumberValue now)]"
    and task: "tasks ?c1 (fresh c) = Some AwaitSwrSet"
    and idle: "refreshInFlight ?c1 = refreshInFlight c"
    by simp_all
  have fr: "fresh ?c1 = Suc (fresh c)"
    using assms(1,2)
    by (simp add: SWR_COOLDOWN_MS_def step_def schedulePaidSWRRevalidate_afterGet_def
        startOp_def finished_def Let_def)
  from gate_revalidate(2) [OF task] idle assms(3) fr
  have "emitted e now' (StorageSetDone (fresh c)) ?c1 = [HttpGet (Suc (Suc (fresh c)))]"
    by simp
  with em show ?thesis
    by (simp add: trace_step)
qed


text \<open>
  Claim C7 says that every cache hit of \<open>getUser\<close> with a paid status triggers the gate.
  A hit on the in-memory \<open>currentStatus\<close> does not: \<open>getUser\<close> returns before it
  reaches \<open>schedulePaidSWRRevalidate\<close>. Here \<open>currentStatus\<close> holds a paid status and no
  check is in flight; \<open>getUser()\<close> resolves and leaves \<open>swrCheckInFlight\<close> null, where a
  call of the gate would have set it.
\<close>

theorem getUser_memory_hit_skips_gate:
  "paid paidUser = True \<and>
   currentStatus (popupClient\<lparr>currentStatus := Some paidUser\<rparr>) = Some paidUser \<and>
   emitted popupEnv 5 (CallGetUser 1 None) (popupClient\<lparr>currentStatus := Some paidUser\<rparr>) =
     [Resolved 1 paidUser] \<and>
   swrCheckInFlight
     (step popupEnv 5 (CallGetUser 1 None) (popupClient\<lparr>currentStatus := Some paidUser\<rparr>)) = None \<and>
   swrCheckInFlight
     (schedulePaidSWRRevalidate (popupClient\<lparr>currentStatus := Some paidUser\<rparr>)) = Some 0"
  by (simp add: paidUser_def emitted_def step_def getUser_def emit_def
      schedulePaidSWRRevalidate_def startOp_def popupClient_fields Let_def)

text \<open>
  Claim C7, amended. A hit of \<open>getUser\<close> on the persisted cache triggers the gate when
  the status it returns has \<open>paid == true\<close>, and does not when it has not; a hit on the
  in-memory \<open>currentStatus\<close> never triggers it. The gate skips when a check is already
  in flight. Otherwise it reads the persisted last-SWR timestamp (0 when absent); when
  less than 5000 ms have elapsed since then it skips: nothing is written, no request
  starts. Otherwise it asks the store to persist \<open>now\<close> as the new timestamp, and only
  the turn after that write has completed calls \<open>autoSyncRefresh\<close>; so the write
  precedes the request of the revalidation in the trace.
\<close>

theorem swr_gate_on_persisted_paid_hit:
  "(tasks c op = Some (AwaitLoad pid) \<and> loadCachedStatus now rc = Some s \<longrightarrow>
      step e now (StorageGetCachedDone op rc) c =
        emit (Resolved pid s)
          ((if paid s then schedulePaidSWRRevalidate else (\<lambda>c'. c'))
             ((finished op c)\<lparr>currentStatus := Some s\<rparr>))) \<and>
   (\<not> (case opts of None \<Rightarrow> False | Some x \<Rightarrow> forceRefresh x = Val True) \<and>
      currentStatus c = Some s \<longrightarrow>
      step e now (CallGetUser pid opts) c = c\<lparr>trace := trace c @ [Resolved pid s]\<rparr>) \<and>
   (swrCheckInFlight c \<noteq> None \<longrightarrow> schedulePaidSWRRevalidate c = c) \<and>
   (swrCheckInFlight c = None \<longrightarrow>
      trace (schedulePaidSWRRevalidate c) = trace c @ [StorageGet (Suc (fresh c)) LAST_SWR_AT_KEY] \<and>
      swrCheckInFlight (schedulePaidSWRRevalidate c) = Some (fresh c) \<and>
      tasks (schedulePaidSWRRevalidate c) (Suc (fresh c)) = Some AwaitSwrGet) \<and>
   (tasks c op = Some AwaitSwrGet \<and> now - (case r of None \<Rightarrow> 0 | Some n \<Rightarrow> n) < 5000 \<longrightarrow>
      emitted e now (StorageGetNumberDone op r) c = [] \<and>
      swrCheckInFlight (step e now (StorageGetNumberDone op r) c) = None \<and>
      refreshInFlight (step e now (StorageGetNumberDone op r) c) = refreshInFlight c) \<and>
   (tasks c op = Some AwaitSwrGet \<and> \<not> now - (case r of None \<Rightarrow> 0 | Some n \<Rightarrow> n) < 5000 \<longrightarrow>
      emitted e now (StorageGetNumberDone op r) c =
        [StorageSet (fresh c) LAST_SWR_AT_KEY (NumberValue now)] \<and>
      tasks (step e now (StorageGetNumberDone op r) c) (fresh c) = Some AwaitSwrSet \<and>
      refreshInFlight (step e now (StorageGetNumberDone op r) c) = refreshInFlight c) \<and>
   (tasks c op = Some AwaitSwrSet \<longrightarrow>
      step e now (StorageSetDone op) c =
        (case autoSyncRefresh (finished op c) of
           (p, c1) \<Rightarrow> c1\<lparr>waiters := waiters c1 @ [(p, SwrCheck)]\<rparr>)) \<and>
   (tasks c op = Some AwaitSwrGet \<and> \<not> now - (case r of None \<Rightarrow> 0 | Some n \<Rightarrow> n) < 5000 \<and>
      refreshInFlight c = None \<longrightarrow>
      trace (run e [(now, StorageGetNumberDone op r), (now', StorageSetDone (fresh c))] c) =
        trace c @ [StorageSet (fresh c) LAST_SWR_AT_KEY (NumberValue now),
                   HttpGet (Suc (Suc (fresh c)))])"
  using getUser_persisted_hit [of c op pid now rc s e]
    getUser_memory_tier [of opts c s e now pid]
    gate_entry(1) [of c] gate_entry(2) [of c]
    gate_cooldown(1) [of c op now r e] gate_cooldown(2) [of c op now r e]
    gate_revalidate(1) [of c op e now]
    gate_order [of c op now r e now']
  by blast

lemma gateClient_fields:
  "currentStatus gateClient = Some paidUser"
  "swrCheckInFlight gateClient = Some (Suc 0)"
  "refreshInFlight gateClient = None"
  "tasks gateClient 2 = Some AwaitSwrGet"
  "fresh gateClient = 3"
  "trace gateClient =
     [StorageOnChangedAddListener, StorageGet 0 STATUS_CACHE_KEY,
      StorageGet 2 LAST_SWR_AT_KEY, Resolved 1 paidUser]"
  by (simp_all add: gateClient_def step_def getUser_afterLoad_def loadCachedStatus_def
      DEFAULT_CACHE_TTL_MS_def paidEntry_def paidUser_def schedulePaidSWRRevalidate_def
      startOp_def emit_def finished_def loadingClient_fields Let_def
      loadingClient_def getUser_def popupClient_fields)


theorem swr_gate_on_persisted_paid_hit_witness:
  "tasks loadingClient 0 = Some (AwaitLoad 1) \<and>
   loadCachedStatus 32000 (Some paidEntry) = Some paidUser \<and>
   swrCheckInFlight loadingClient = None \<and>
   swrCheckInFlight (step popupEnv 32000 (StorageGetCachedDone 0 (Some paidEntry)) loadingClient) = Some 1 \<and>
   swrCheckInFlight
     (step popupEnv 32000
        (StorageGetCachedDone 0 (Some \<lparr> status = freeUser, fetchedAt = 31000 \<rparr>)) loadingClient) = None \<and>
   schedulePaidSWRRevalidate gateClient = gateClient \<and>
   tasks gateClient 2 = Some AwaitSwrGet \<and>
   emitted popupEnv 32001 (StorageGetNumberDone 2 (Some 30000)) gateClient = [] \<and>
   swrCheckInFlight (step popupEnv 32001 (StorageGetNumberDone 2 (Some 30000)) gateClient) = None \<and>
   emitted popupEnv 32001 (StorageGetNumberDone 2 None) gateClient =
     [StorageSet 3 LAST_SWR_AT_KEY (NumberValue 32001)] \<and>
   tasks stampingClient 3 = Some AwaitSwrSet \<and>
   trace (run popupEnv [(32001, StorageGetNumberDone 2 None), (32002, StorageSetDone 3)] gateClient) =
     [StorageOnChangedAddListener, StorageGet 0 STATUS_CACHE_KEY,
      StorageGet 2 LAST_SWR_AT_KEY, Resolved 1 paidUser,
      StorageSet 3 LAST_SWR_AT_KEY (NumberValue 32001), HttpGet 5]"
proof -
  let ?freeEntry = "\<lparr> status = freeUser, fetchedAt = 31000 \<rparr>"
  have loading: "tasks loadingClient 0 = Some (AwaitLoad 1)"
    by (rule loadingClient_fields)
  have noCheck: "swrCheckInFlight loadingClient = None"
    by (simp add: loadingClient_def step_def getUser_def startOp_def popupClient_fields)
  have hitPaid: "loadCachedStatus 32000 (Some paidEntry) = Some paidUser"
    by (simp add: loadCachedStatus_def paidEntry_def DEFAULT_CACHE_TTL_MS_def)
  have hitFree: "loadCachedStatus 32000 (Some ?freeEntry) = Some freeUser"
    by (simp add: loadCachedStatus_def DEFAULT_CACHE_TTL_MS_def)
  have paidGate:
    "swrCheckInFlight (step popupEnv 32000 (StorageGetCachedDone 0 (Some paidEntry)) loadingClient) = Some 1"
    using swr_gate_on_persisted_paid_hit
      [where c = loadingClient and op = 0 and pid = 1 and now = 32000
        and rc = "Some paidEntry" and s = paidUser and e = popupEnv]
      loading hitPaid
    by (simp add: paidUser_def emit_def schedulePaidSWRRevalidate_def startOp_def
        finished_def noCheck loadingClient_fields Let_def)
  have freeNoGate:
    "swrCheckInFlight (step popupEnv 32000 (StorageGetCachedDone 0 (Some ?freeEntry)) loadingClient) = None"
    using swr_gate_on_persisted_paid_hit
      [where c = loadingClient and op = 0 and pid = 1 and now = 32000
        and rc = "Some ?freeEntry" and s = freeUser and e = popupEnv]
      loading hitFree
    by (simp add: freeUser_def emit_def finished_def noCheck)
  have inFlight: "swrCheckInFlight gateClient \<noteq> None"
    by (simp add: gateClient_fields)
  have skipInFlight: "schedulePaidSWRRevalidate gateClient = gateClient"
    using swr_gate_on_persisted_paid_hit [where c = gateClient] inFlight by blast
  have waiting: "tasks gateClient 2 = Some AwaitSwrGet"
    by (rule gateClient_fields)
  have cooling: "32001 - (case Some 30000 of None \<Rightarrow> 0 | Some n \<Rightarrow> n) < (5000::int)"
    by simp
  have skipCooldown:
    "emitted popupEnv 32001 (StorageGetNumberDone 2 (Some 30000)) gateClient = [] \<and>
     swrCheckInFlight (step popupEnv 32001 (StorageGetNumberDone 2 (Some 30000)) gateClient) = None"
    using swr_gate_on_persisted_paid_hit
      [where c = gateClient and op = 2 and now = 32001 and r = "Some 30000" and e = popupEnv]
      waiting cooling
    by blast
  have elapsed: "\<not> 32001 - (case None of None \<Rightarrow> 0 | Some n \<Rightarrow> n) < (5000::int)"
    by simp
  have idle: "refreshInFlight gateClient = None"
    by (rule gateClient_fields)
  have stamp:
    "emitted popupEnv 32001 (StorageGetNumberDone 2 None) gateClient =
       [StorageSet (fresh gateClient) LAST_SWR_AT_KEY (NumberValue 32001)] \<and>
     tasks (step popupEnv 32001 (StorageGetNumberDone 2 None) gateClient) (fresh gateClient) =
       Some AwaitSwrSet \<and>
     trace (run popupEnv [(32001, StorageGetNumberDone 2 None), (32002, StorageSetDone (fresh gateClient))]
              gateClient) =
       trace gateClient @ [StorageSet (fresh gateClient) LAST_SWR_AT_KEY (NumberValue 32001),
                           HttpGet (Suc (Suc (fresh gateClient)))]"
    using swr_gate_on_persisted_paid_hit
      [where c = gateClient and op = 2 and now = 32001 and r = None and e = popupEnv
        and now' = 32002]
      waiting elapsed idle
    by blast
  from loading noCheck hitPaid paidGate freeNoGate skipInFlight waiting skipCooldown stamp
  show ?thesis
    by (simp add: gateClient_fields stampingClient_def)
qed

section \<open>Background tracking\<close>

lemma enableBackgroundStatusTracking_again:
  "backgroundTrackingEnabled c \<Longrightarrow> enableBackgroundStatusTracking e opts c = c"
  by (simp add: enableBackgroundStatusTracking_def)

lemma backgroundTrackingEnabled_autoSyncRefresh [simp]:
  "backgroundTrackingEnabled (snd (autoSyncRefresh c)) = backgroundTrackingEnabled c"
  "messageListenerAttached (snd (autoSyncRefresh c)) = messageListenerAttached c"
  "alarmListenerAttached (snd (autoSyncRefresh c)) = alarmListenerAttached c"
  by (simp_all add: autoSyncRefresh_def doRefresh_def startOp_def Let_def split: option.split)

lemma enableBackgroundStatusTracking_first:
  assumes "\<not> backgroundTrackingEnabled c"
  shows "backgroundTrackingEnabled (enableBackgroundStatusTracking e opts c)"
    and "messageListenerAttached (enableBackgroundStatusTracking e opts c) =
           (messageListenerAttached c \<or> chromeRuntimeOnMessage e)"
    and "alarmListenerAttached (enableBackgroundStatusTracking e opts c) =
           (alarmListenerAttached c \<or> chromeAlarms e)"
    and "trace (enableBackgroundStatusTracking e opts c) =
           trace c @
           (if chromeRuntimeOnMessage e \<and> \<not> messageListenerAttached c
            then [RuntimeOnMessageAddListener] else []) @
           (if chromeAlarms e
            then AlarmsCreate DEFAULT_BG_ALARM_NAME
                   (case opts of None \<Rightarrow> DEFAULT_BG_POLL_MINUTES | Some n \<Rightarrow> n) #
                 (if \<not> alarmListenerAttached c then [AlarmsOnAlarmAddListener] else [])
            else []) @
           (case refreshInFlight c of None \<Rightarrow> [HttpGet (Suc (fresh c))] | Some p \<Rightarrow> [])"
proof -
  show "backgroundTrackingEnabled (enableBackgroundStatusTracking e opts c)"
    and "messageListenerAttached (enableBackgroundStatusTracking e opts c) =
           (messageListenerAttached c \<or> chromeRuntimeOnMessage e)"
    and "alarmListenerAttached (enableBackgroundStatusTracking e opts c) =
           (alarmListenerAttached c \<or> chromeAlarms e)"
    using assms by (auto simp: enableBackgroundStatusTracking_def emit_def Let_def)
qed (use assms in \<open>simp add: trace_enableBackgroundStatusTracking\<close>)

lemma enableBackgroundStatusTracking_calls_again:
  "backgroundTrackingEnabled c \<Longrightarrow> enableBackgroundStatusTracking_calls e os c = c"
  by (induction os) (simp_all add: enableBackgroundStatusTracking_again)

lemma enableBackgroundStatusTracking_calls_first:
  assumes "\<not> backgroundTrackingEnabled c"
  shows "enableBackgroundStatusTracking_calls e (opts # rest) c =
           enableBackgroundStatusTracking e opts c"
  using enableBackgroundStatusTracking_first(1) [OF assms, of e opts]
  by (simp add: enableBackgroundStatusTracking_calls_again)

lemma registrations_once:
  assumes "\<not> backgroundTrackingEnabled c"
    and "\<not> messageListenerAttached c" and "\<not> alarmListenerAttached c"
    and "RuntimeOnMessageAddListener \<notin> set (trace c)"
    and "AlarmsOnAlarmAddListener \<notin> set (trace c)"
  shows "count_list (trace (enableBackgroundStatusTracking_calls e (opts # rest) c))
           RuntimeOnMessageAddListener = (if chromeRuntimeOnMessage e then 1 else 0)"
    and "count_list (trace (enableBackgroundStatusTracking_calls e (opts # rest) c))
           AlarmsOnAlarmAddListener = (if chromeAlarms e then 1 else 0)"
  using assms
  by (simp_all add: enableBackgroundStatusTracking_calls_again
      enableBackgroundStatusTracking_first count_list_0_iff split: option.split)


lemma created_fields:
  assumes "createBillingExtensionsClient e config = Inr c0"
  shows "\<not> backgroundTrackingEnabled c0" and "\<not> messageListenerAttached c0"
    and "\<not> alarmListenerAttached c0" and "refreshInFlight c0 = None" and "fresh c0 = 0"
    and "RuntimeOnMessageAddListener \<notin> set (trace c0)"
    and "AlarmsOnAlarmAddListener \<notin> set (trace c0)"
  using assms
  by (auto simp: createBillingExtensionsClient_def attachStorageStatusListener_def
      initialClient_def emit_def split: option.splits if_splits)

lemma created_then_enabled:
  assumes "createBillingExtensionsClient e config = Inr c0"
  shows "trace (enableBackgroundStatusTracking_calls e (opts # rest) c0) =
           trace c0 @
           (if chromeRuntimeOnMessage e then [RuntimeOnMessageAddListener] else []) @
           (if chromeAlarms e
            then [AlarmsCreate DEFAULT_BG_ALARM_NAME
                    (case opts of None \<Rightarrow> DEFAULT_BG_POLL_MINUTES | Some n \<Rightarrow> n),
                  AlarmsOnAlarmAddListener]
            else []) @
           [HttpGet (Suc 0)]"
  using created_fields [OF assms]
  by (simp add: enableBackgroundStatusTracking_calls_again enableBackgroundStatusTracking_first)

text \<open>
  Claim C9 says that after any number of calls exactly one message listener and exactly
  one alarm handler have been registered. Where the platform has no
  \<^verbatim>\<open>chrome.alarms\<close> (the extension lacks the permission), the guard of the source skips
  the alarm part: after two calls in such a service worker one message listener and no
  alarm handler are registered.
\<close>

theorem enableBackgroundStatusTracking_without_alarms:
  "chromeAlarms workerEnv = False \<and>
   createBillingExtensionsClient workerEnv exampleConfig = Inr workerClient \<and>
   count_list (trace (enableBackgroundStatusTracking_calls workerEnv [None, Some 5] workerClient))
     AlarmsOnAlarmAddListener = 0 \<and>
   alarmListenerAttached (enableBackgroundStatusTracking_calls workerEnv [None, Some 5] workerClient) = False \<and>
   count_list (trace (enableBackgroundStatusTracking_calls workerEnv [None, Some 5] workerClient))
     RuntimeOnMessageAddListener = 1"
  by (simp add: workerEnv_def workerClient_def createBillingExtensionsClient_def
      validateConfig_def exampleConfig_def attachStorageStatusListener_def initialClient_def
      enableBackgroundStatusTracking_def autoSyncRefresh_def doRefresh_def startOp_def
      emit_def Let_def)

text \<open>
  Claim C9, amended. \<open>enableBackgroundStatusTracking\<close> is idempotent. The first call
  in a client instance sets the guard flag, registers the checkout-return message
  listener where \<^verbatim>\<open>chrome.runtime.onMessage\<close> exists and (re)creates the alarm and
  registers the alarm handler where \<^verbatim>\<open>chrome.alarms\<close> exists, and calls
  \<open>autoSyncRefresh\<close> once to warm the cache; every later call is a no-op. So after one
  or more calls on a new client, one message listener is registered where the platform
  offers it and none where it does not, likewise one alarm handler or none, and exactly
  one request has been started.
\<close>

theorem enableBackgroundStatusTracking_idempotent:
  "(backgroundTrackingEnabled c \<longrightarrow> enableBackgroundStatusTracking e opts c = c) \<and>
   (\<not> backgroundTrackingEnabled c \<longrightarrow>
      backgroundTrackingEnabled (enableBackgroundStatusTracking e opts c) \<and>
      messageListenerAttached (enableBackgroundStatusTracking e opts c) =
        (messageListenerAttached c \<or> chromeRuntimeOnMessage e) \<and>
      alarmListenerAttached (enableBackgroundStatusTracking e opts c) =
        (alarmListenerAttached c \<or> chromeAlarms e) \<and>
      trace (enableBackgroundStatusTracking e opts c) =
        trace c @
        (if chromeRuntimeOnMessage e \<and> \<not> messageListenerAttached c
         then [RuntimeOnMessageAddListener] else []) @
        (if chromeAlarms e
         then AlarmsCreate DEFAULT_BG_ALARM_NAME
                (case opts of None \<Rightarrow> DEFAULT_BG_POLL_MINUTES | Some n \<Rightarrow> n) #
              (if \<not> alarmListenerAttached c then [AlarmsOnAlarmAddListener] else [])
         else []) @
        (case refreshInFlight c of None \<Rightarrow> [HttpGet (Suc (fresh c))] | Some p \<Rightarrow> []) \<and>
      enableBackgroundStatusTracking_calls e (opts # rest) c =
        enableBackgroundStatusTracking e opts c) \<and>
   (createBillingExtensionsClient e config = Inr c0 \<longrightarrow>
      count_list (trace (enableBackgroundStatusTracking_calls e (opts # rest) c0))
        RuntimeOnMessageAddListener = (if chromeRuntimeOnMessage e then 1 else 0) \<and>
      count_list (trace (enableBackgroundStatusTracking_calls e (opts # rest) c0))
        AlarmsOnAlarmAddListener = (if chromeAlarms e then 1 else 0) \<and>
      trace (enableBackgroundStatusTracking_calls e (opts # rest) c0) =
        trace c0 @
        (if chromeRuntimeOnMessage e then [RuntimeOnMessageAddListener] else []) @
        (if chromeAlarms e
         then [AlarmsCreate DEFAULT_BG_ALARM_NAME
                 (case opts of None \<Rightarrow> DEFAULT_BG_POLL_MINUTES | Some n \<Rightarrow> n),
               AlarmsOnAlarmAddListener]
         else []) @
        [HttpGet (Suc 0)])"
proof -
  have again: "backgroundTrackingEnabled c \<longrightarrow> enableBackgroundStatusTracking e opts c = c"
    by (simp add: enableBackgroundStatusTracking_again)
  have first: "\<not> backgroundTrackingEnabled c \<longrightarrow>
      backgroundTrackingEnabled (enableBackgroundStatusTracking e opts c) \<and>
      messageListenerAttached (enableBackgroundStatusTracking e opts c) =
        (messageListenerAttached c \<or> chromeRuntimeOnMessage e) \<and>
      alarmListenerAttached (enableBackgroundStatusTracking e opts c) =
        (alarmListenerAttached c \<or> chromeAlarms e) \<and>
      trace (enableBackgroundStatusTracking e opts c) =
        trace c @
        (if chromeRuntimeOnMessage e \<and> \<not> messageListenerAttached c
         then [RuntimeOnMessageAddListener] else []) @
        (if chromeAlarms e
         then AlarmsCreate DEFAULT_BG_ALARM_NAME
                (case opts of None \<Rightarrow> DEFAULT_BG_POLL_MINUTES | Some n \<Rightarrow> n) #
              (if \<not> alarmListenerAttached c then [AlarmsOnAlarmAddListener] else [])
         else []) @
        (case refreshInFlight c of None \<Rightarrow> [HttpGet (Suc (fresh c))] | Some p \<Rightarrow> []) \<and>
      enableBackgroundStatusTracking_calls e (opts # rest) c =
        enableBackgroundStatusTracking e opts c"
    using enableBackgroundStatusTracking_first [of c e opts]
      enableBackgroundStatusTracking_calls_first [of c e opts rest]
    by blast
  have created: "createBillingExtensionsClient e config = Inr c0 \<longrightarrow>
      count_list (trace (enableBackgroundStatusTracking_calls e (opts # rest) c0))
        RuntimeOnMessageAddListener = (if chromeRuntimeOnMessage e then 1 else 0) \<and>
      count_list (trace (enableBackgroundStatusTracking_calls e (opts # rest) c0))
        AlarmsOnAlarmAddListener = (if chromeAlarms e then 1 else 0) \<and>
      trace (enableBackgroundStatusTracking_calls e (opts # rest) c0) =
        trace c0 @
        (if chromeRuntimeOnMessage e then [RuntimeOnMessageAddListener] else []) @
        (if chromeAlarms e
         then [AlarmsCreate DEFAULT_BG_ALARM_NAME
                 (case opts of None \<Rightarrow> DEFAULT_BG_POLL_MINUTES | Some n \<Rightarrow> n),
               AlarmsOnAlarmAddListener]
         else []) @
        [HttpGet (Suc 0)]"
  proof
    assume made: "createBillingExtensionsClient e config = Inr c0"
    note new = created_fields [OF made]
    from registrations_once [OF new(1,2,3,6,7), where e = e and opts = opts and rest = rest]
      created_then_enabled [OF made, where opts = opts and rest = rest]
    show "count_list (trace (enableBackgroundStatusTracking_calls e (opts # rest) c0))
        RuntimeOnMessageAddListener = (if chromeRuntimeOnMessage e then 1 else 0) \<and>
      count_list (trace (enableBackgroundStatusTracking_calls e (opts # rest) c0))
        AlarmsOnAlarmAddListener = (if chromeAlarms e then 1 else 0) \<and>
      trace (enableBackgroundStatusTracking_calls e (opts # rest) c0) =
        trace c0 @
        (if chromeRuntimeOnMessage e then [RuntimeOnMessageAddListener] else []) @
        (if chromeAlarms e
         then [AlarmsCreate DEFAULT_BG_ALARM_NAME
                 (case opts of None \<Rightarrow> DEFAULT_BG_POLL_MINUTES | Some n \<Rightarrow> n),
               AlarmsOnAlarmAddListener]
         else []) @
        [HttpGet (Suc 0)]"
      by blast
  qed
  from again first created show ?thesis
    by blast
qed

theorem enableBackgroundStatusTracking_idempotent_witness:
  "createBillingExtensionsClient popupEnv exampleConfig = Inr popupClient \<and>
   backgroundTrackingEnabled popupClient = False \<and>
   trace (enableBackgroundStatusTracking_calls popupEnv [None, Some 5, None] popupClient) =
     [StorageOnChangedAddListener, RuntimeOnMessageAddListener,
      AlarmsCreate DEFAULT_BG_ALARM_NAME 1, AlarmsOnAlarmAddListener, HttpGet 1] \<and>
   backgroundTrackingEnabled (enableBackgroundStatusTracking popupEnv None popupClient) = True \<and>
   enableBackgroundStatusTracking popupEnv (Some 5)
     (enableBackgroundStatusTracking popupEnv None popupClient) =
     enableBackgroundStatusTracking popupEnv None popupClient"
proof -
  have created: "createBillingExtensionsClient popupEnv exampleConfig = Inr popupClient"
    by (simp add: createBillingExtensionsClient_def validateConfig_def exampleConfig_def
        popupClient_def)
  have off: "\<not> backgroundTrackingEnabled popupClient"
    by (simp add: popupClient_fields)
  from enableBackgroundStatusTracking_idempotent
      [where c = popupClient and e = popupEnv and opts = None and rest = "[Some 5, None]"
        and config = exampleConfig and ?c0.0 = popupClient]
    created off
  have on: "backgroundTrackingEnabled (enableBackgroundStatusTracking popupEnv None popupClient)"
    and tr: "trace (enableBackgroundStatusTracking_calls popupEnv [None, Some 5, None] popupClient) =
        trace popupClient @
        (if chromeRuntimeOnMessage popupEnv then [RuntimeOnMessageAddListener] else []) @
        (if chromeAlarms popupEnv
         then [AlarmsCreate DEFAULT_BG_ALARM_NAME
                 (case None of None \<Rightarrow> DEFAULT_BG_POLL_MINUTES | Some n \<Rightarrow> n),
               AlarmsOnAlarmAddListener]
         else []) @
        [HttpGet (Suc 0)]"
    by blast+
  from enableBackgroundStatusTracking_idempotent
      [where c = "enableBackgroundStatusTracking popupEnv None popupClient"
        and e = popupEnv and opts = "Some 5"] on
  have noop: "enableBackgroundStatusTracking popupEnv (Some 5)
      (enableBackgroundStatusTracking popupEnv None popupClient) =
      enableBackgroundStatusTracking popupEnv None popupClient"
    by blast
  from created off on tr noop show ?thesis
    by (simp add: popupClient_fields popupEnv_def DEFAULT_BG_POLL_MINUTES_def)
qed

section \<open>AutoSync scheduler\<close>

lemma scheduleRefresh_eq:
  "scheduleRefresh now state w =
     w\<lparr>timers :=
         filter (\<lambda>p. case debounceTimer state of Some t \<Rightarrow> fst p \<noteq> t | None \<Rightarrow> True) (timers w) @
         [(nextTimer w,
           if now - lastRefreshAt state < minIntervalMs (options state)
           then minIntervalMs (options state) - (now - lastRefreshAt state)
           else debounceMs (options state))],
       nextTimer := Suc (nextTimer w),
       autoSyncState := (autoSyncState w)\<lparr>debounceTimer := Some (nextTimer w)\<rparr>\<rparr>"
  by (cases "debounceTimer state")
    (simp_all add: scheduleRefresh_def canRefresh_def setTimeout_def clearTimeout_def
      updateState_def Let_def not_le)

lemma executeRefresh_eq:
  "executeRefresh now refreshFn w =
     (Inr (), snd (refreshFn (w\<lparr>autoSyncState :=
                                  (autoSyncState w)\<lparr>lastRefreshAt := now, debounceTimer := None\<rparr>\<rparr>)))"
  by (simp add: executeRefresh_def updateState_def Let_def split: prod.split sum.split)

lemma timerFired_eq:
  "t \<in> fst ` set (timers w) \<Longrightarrow>
   timerFired now refreshFn t w =
     (Inr (), snd (refreshFn (w\<lparr>timers := filter (\<lambda>p. fst p \<noteq> t) (timers w),
                                autoSyncState :=
                                  (autoSyncState w)\<lparr>lastRefreshAt := now, debounceTimer := None\<rparr>\<rparr>)))"
  "t \<notin> fst ` set (timers w) \<Longrightarrow> timerFired now refreshFn t w = (Inr (), w)"
  by (simp_all add: timerFired_def executeRefresh_eq)

text \<open>
  What \<open>scheduleRefresh\<close> does with the state object it is given. It clears the timer
  that object records in \<open>debounceTimer\<close>, sets a new timer and records it in the
  variable. When less than \<open>minIntervalMs\<close> has elapsed since the object's
  \<open>lastRefreshAt\<close>, the new timer's delay is \<open>minIntervalMs\<close> minus the elapsed time:
  positive, and due exactly at \<open>lastRefreshAt + minIntervalMs\<close>; otherwise the delay is
  \<open>debounceMs\<close>. When a pending timer fires, \<open>lastRefreshAt\<close> is set to \<open>now\<close> (and
  \<open>debounceTimer\<close> to null) in the state the refresh function then runs in, and whatever
  the refresh function throws, \<open>executeRefresh\<close> returns normally. A cleared timer does
  not fire.
\<close>

lemma scheduleRefresh_on_given_state:
  "timers (scheduleRefresh now state w) =
     filter (\<lambda>p. case debounceTimer state of Some t \<Rightarrow> fst p \<noteq> t | None \<Rightarrow> True) (timers w) @
     [(nextTimer w,
       if now - lastRefreshAt state < minIntervalMs (options state)
       then minIntervalMs (options state) - (now - lastRefreshAt state)
       else debounceMs (options state))] \<and>
   autoSyncState (scheduleRefresh now state w) =
     (autoSyncState w)\<lparr>debounceTimer := Some (nextTimer w)\<rparr> \<and>
   nextTimer (scheduleRefresh now state w) = Suc (nextTimer w) \<and>
   (now - lastRefreshAt state < minIntervalMs (options state) \<longrightarrow>
      0 < minIntervalMs (options state) - (now - lastRefreshAt state) \<and>
      now + (minIntervalMs (options state) - (now - lastRefreshAt state)) =
        lastRefreshAt state + minIntervalMs (options state)) \<and>
   (tm \<in> fst ` set (timers w) \<longrightarrow>
      timerFired now refreshFn tm w =
        (Inr (),
         snd (refreshFn
                (w\<lparr>timers := filter (\<lambda>p. fst p \<noteq> tm) (timers w),
                   autoSyncState :=
                     (autoSyncState w)\<lparr>lastRefreshAt := now, debounceTimer := None\<rparr>\<rparr>)))) \<and>
   (tm \<notin> fst ` set (timers w) \<longrightarrow> timerFired now refreshFn tm w = (Inr (), w)) \<and>
   executeRefresh now refreshFn w =
     (Inr (),
      snd (refreshFn
             (w\<lparr>autoSyncState :=
                  (autoSyncState w)\<lparr>lastRefreshAt := now, debounceTimer := None\<rparr>\<rparr>)))"
  using timerFired_eq [of tm w now refreshFn]
  by (simp add: scheduleRefresh_eq executeRefresh_eq)

lemma onceScheduled_eq:
  "onceScheduled =
     \<lparr> autoSyncState = (createAutoSyncState (\<lambda>opts. opts))\<lparr>debounceTimer := Some 0\<rparr>,
       timers = [(0, 300)], nextTimer = Suc 0, listeners = [] \<rparr>"
  by (simp add: onceScheduled_def newScheduler_def scheduleRefresh_eq createAutoSyncState_def
      DEFAULT_AUTOSYNC_OPTIONS_def)

lemma twiceScheduled_eq:
  "twiceScheduled =
     \<lparr> autoSyncState = (createAutoSyncState (\<lambda>opts. opts))\<lparr>debounceTimer := Some (Suc 0)\<rparr>,
       timers = [(Suc 0, 300)], nextTimer = 2, listeners = [] \<rparr>"
  by (simp add: twiceScheduled_def onceScheduled_eq scheduleRefresh_eq createAutoSyncState_def
      DEFAULT_AUTOSYNC_OPTIONS_def)

lemma refreshed_eq:
  "refreshed =
     \<lparr> autoSyncState = (createAutoSyncState (\<lambda>opts. opts))\<lparr>lastRefreshAt := 10400\<rparr>,
       timers = [], nextTimer = 2, listeners = [] \<rparr>"
  by (simp add: refreshed_def twiceScheduled_eq timerFired_def executeRefresh_eq
      failingRefresh_def createAutoSyncState_def)

lemma scheduleRefresh_on_given_state_example:
  "timers onceScheduled = [(0, 300)] \<and>
   debounceTimer (autoSyncState onceScheduled) = Some 0 \<and>
   timers twiceScheduled = [(1, 300)] \<and>
   debounceTimer (autoSyncState twiceScheduled) = Some 1 \<and>
   timerFired 10400 failingRefresh 0 twiceScheduled = (Inr (), twiceScheduled) \<and>
   fst (timerFired 10400 failingRefresh 1 twiceScheduled) = Inr () \<and>
   lastRefreshAt (autoSyncState refreshed) = 10400 \<and>
   debounceTimer (autoSyncState refreshed) = None \<and>
   11400 - lastRefreshAt (autoSyncState refreshed) < minIntervalMs (options (autoSyncState refreshed)) \<and>
   timers (scheduleRefresh 11400 (autoSyncState refreshed) refreshed) = [(2, 2000)]"
proof -
  have first: "timers onceScheduled = [(0, 300)] \<and>
      debounceTimer (autoSyncState onceScheduled) = Some 0"
    using scheduleRefresh_on_given_state
      [where now = 10000 and state = "autoSyncState newScheduler" and w = newScheduler]
    by (simp add: onceScheduled_def newScheduler_def createAutoSyncState_def
        DEFAULT_AUTOSYNC_OPTIONS_def)
  have second: "timers twiceScheduled = [(1, 300)] \<and>
      debounceTimer (autoSyncState twiceScheduled) = Some 1"
    using scheduleRefresh_on_given_state
      [where now = 10100 and state = "autoSyncState onceScheduled" and w = onceScheduled]
    by (simp add: twiceScheduled_def onceScheduled_eq createAutoSyncState_def
        DEFAULT_AUTOSYNC_OPTIONS_def)
  have cleared: "0 \<notin> fst ` set (timers twiceScheduled)"
    and pending: "1 \<in> fst ` set (timers twiceScheduled)"
    by (simp_all add: twiceScheduled_eq)
  have noFire: "timerFired 10400 failingRefresh 0 twiceScheduled = (Inr (), twiceScheduled)"
    using scheduleRefresh_on_given_state
      [where w = twiceScheduled and tm = 0 and now = 10400 and refreshFn = failingRefresh]
      cleared
    by blast
  have fire: "timerFired 10400 failingRefresh 1 twiceScheduled =
      (Inr (),
       snd (failingRefresh
              (twiceScheduled\<lparr>timers := filter (\<lambda>p. fst p \<noteq> 1) (timers twiceScheduled),
                 autoSyncState :=
                   (autoSyncState twiceScheduled)\<lparr>lastRefreshAt := 10400, debounceTimer := None\<rparr>\<rparr>)))"
    using scheduleRefresh_on_given_state
      [where w = twiceScheduled and tm = 1 and now = 10400 and refreshFn = failingRefresh]
      pending
    by blast
  have limited: "11400 - lastRefreshAt (autoSyncState refreshed)
      < minIntervalMs (options (autoSyncState refreshed))"
    by (simp add: refreshed_eq createAutoSyncState_def DEFAULT_AUTOSYNC_OPTIONS_def)
  have third: "timers (scheduleRefresh 11400 (autoSyncState refreshed) refreshed) = [(2, 2000)]"
    using scheduleRefresh_on_given_state
      [where now = 11400 and state = "autoSyncState refreshed" and w = refreshed]
    by (simp add: refreshed_eq createAutoSyncState_def DEFAULT_AUTOSYNC_OPTIONS_def)
  from fire have fired: "fst (timerFired 10400 failingRefresh 1 twiceScheduled) = Inr ()"
    by simp
  have after: "lastRefreshAt (autoSyncState refreshed) = 10400 \<and>
      debounceTimer (autoSyncState refreshed) = None"
    by (simp add: refreshed_eq createAutoSyncState_def)
  from first second noFire fired after limited third show ?thesis
    by simp
qed


text \<open>
  \<open>scheduleRefresh\<close> reads the timer to clear from the state object it is given, not
  from the variable \<open>updateState\<close> writes: given the state as it was before an earlier
  call, it leaves that call's timer pending.
\<close>

lemma scheduleRefresh_reads_given_state:
  "timers (scheduleRefresh 10100 (autoSyncState newScheduler) onceScheduled) = [(0, 300), (1, 300)]"
  by (simp add: scheduleRefresh_eq onceScheduled_eq newScheduler_def createAutoSyncState_def
      DEFAULT_AUTOSYNC_OPTIONS_def)






section \<open>AutoSync activation\<close>

lemma isExtensionUiContext_iff:
  "isExtensionUiContext e =
     (hasWindow e \<and> hasDocument e \<and>
      (\<exists>protocol. locationProtocol e = Some protocol \<and>
         protocol \<in> {''chrome-extension:'', ''moz-extension:'', ''safari-extension:''}))"
  by (auto simp: isExtensionUiContext_def ALLOWED_PROTOCOLS_def split: option.split)

lemma activated_scheduleRefresh [simp]:
  "activated (autoSyncState (scheduleRefresh now state w)) = activated (autoSyncState w)"
  "listeners (scheduleRefresh now state w) = listeners w"
  by (simp_all add: scheduleRefresh_eq)

lemma activateAutoSync_active:
  assumes "enabled state" and "\<not> activated state" and "isExtensionUiContext e"
  shows "activated (autoSyncState (activateAutoSync e now state w))"
    and "listeners (activateAutoSync e now state w) =
           listeners w @
           (if refreshOnFocus (options state)
            then [(Document, ''visibilitychange'', HandleVisibility), (Window, ''focus'', HandleFocus)]
            else []) @
           (if refreshOnOnline (options state) then [(Window, ''online'', HandleOnline)] else [])"
  using assms
  by (simp_all add: activateAutoSync_def setupAutoSyncListeners_def updateState_def Let_def)

lemma activateAutoSync_inactive:
  "\<not> enabled state \<or> activated state \<or> \<not> isExtensionUiContext e \<Longrightarrow>
     activateAutoSync e now state w = w"
  by (auto simp: activateAutoSync_def)

text \<open>
  Claim C8. The execution context counts as an extension UI page exactly when
  \<^verbatim>\<open>window\<close> and \<^verbatim>\<open>document\<close> are defined and \<^verbatim>\<open>location.protocol\<close> is one of
  \<^verbatim>\<open>chrome-extension:\<close>, \<^verbatim>\<open>moz-extension:\<close>, \<^verbatim>\<open>safari-extension:\<close>.
  \<open>activateAutoSync\<close> takes the AutoSync state from inactive to active only when the
  state it is given has \<open>enabled == true\<close> and \<open>activated == false\<close> and the context is
  such a page (and then it does, attaching the listeners the options ask for). In any
  other context it changes nothing: no listener is attached, no timer is set, and
  \<open>activated\<close> stays as it was.
\<close>

theorem activateAutoSync_only_in_ui_context:
  "isExtensionUiContext e =
     (hasWindow e \<and> hasDocument e \<and>
      (\<exists>protocol. locationProtocol e = Some protocol \<and>
         protocol \<in> {''chrome-extension:'', ''moz-extension:'', ''safari-extension:''})) \<and>
   (\<not> activated (autoSyncState w) \<and> activated (autoSyncState (activateAutoSync e now state w)) \<longrightarrow>
      enabled state \<and> \<not> activated state \<and> isExtensionUiContext e) \<and>
   (enabled state \<and> \<not> activated state \<and> isExtensionUiContext e \<longrightarrow>
      activated (autoSyncState (activateAutoSync e now state w)) \<and>
      listeners (activateAutoSync e now state w) =
        listeners w @
        (if refreshOnFocus (options state)
         then [(Document, ''visibilitychange'', HandleVisibility), (Window, ''focus'', HandleFocus)]
         else []) @
        (if refreshOnOnline (options state) then [(Window, ''online'', HandleOnline)] else [])) \<and>
   (\<not> isExtensionUiContext e \<longrightarrow> activateAutoSync e now state w = w)"
  using isExtensionUiContext_iff [of e]
    activateAutoSync_active [of state e now w]
    activateAutoSync_inactive [of state e now w]
  by metis

theorem activateAutoSync_only_in_ui_context_witness:
  "isExtensionUiContext popupEnv \<and>
   enabled (autoSyncState newScheduler) \<and>
   activated (autoSyncState newScheduler) = False \<and>
   activated (autoSyncState (activateAutoSync popupEnv 10000 (autoSyncState newScheduler) newScheduler)) \<and>
   listeners (activateAutoSync popupEnv 10000 (autoSyncState newScheduler) newScheduler) =
     [(Document, ''visibilitychange'', HandleVisibility), (Window, ''focus'', HandleFocus),
      (Window, ''online'', HandleOnline)] \<and>
   isExtensionUiContext workerEnv = False \<and>
   activateAutoSync workerEnv 10000 (autoSyncState newScheduler) newScheduler = newScheduler \<and>
   isExtensionUiContext webPageEnv = False \<and>
   activateAutoSync webPageEnv 10000 (autoSyncState newScheduler) newScheduler = newScheduler"
proof -
  let ?state = "autoSyncState newScheduler"
  have popup: "isExtensionUiContext popupEnv"
    by (simp add: isExtensionUiContext_def ALLOWED_PROTOCOLS_def popupEnv_def)
  have worker: "\<not> isExtensionUiContext workerEnv"
    by (simp add: isExtensionUiContext_def workerEnv_def)
  have web: "\<not> isExtensionUiContext webPageEnv"
    by (simp add: isExtensionUiContext_def ALLOWED_PROTOCOLS_def webPageEnv_def)
  have ready: "enabled ?state \<and> \<not> activated ?state"
    by (simp add: newScheduler_def createAutoSyncState_def)
  have opts: "refreshOnFocus (options ?state) \<and> refreshOnOnline (options ?state) \<and>
      listeners newScheduler = []"
    by (simp add: newScheduler_def createAutoSyncState_def DEFAULT_AUTOSYNC_OPTIONS_def)
  from activateAutoSync_only_in_ui_context
      [where e = popupEnv and now = 10000 and state = ?state and w = newScheduler]
    popup ready
  have active: "activated (autoSyncState (activateAutoSync popupEnv 10000 ?state newScheduler)) \<and>
      listeners (activateAutoSync popupEnv 10000 ?state newScheduler) =
        listeners newScheduler @
        (if refreshOnFocus (options ?state)
         then [(Document, ''visibilitychange'', HandleVisibility), (Window, ''focus'', HandleFocus)]
         else []) @
        (if refreshOnOnline (options ?state) then [(Window, ''online'', HandleOnline)] else [])"
    by blast
  from activateAutoSync_only_in_ui_context
      [where e = workerEnv and now = 10000 and state = ?state and w = newScheduler] worker
  have inWorker: "activateAutoSync workerEnv 10000 ?state newScheduler = newScheduler"
    by blast
  from activateAutoSync_only_in_ui_context
      [where e = webPageEnv and now = 10000 and state = ?state and w = newScheduler] web
  have onWebPage: "activateAutoSync webPageEnv 10000 ?state newScheduler = newScheduler"
    by blast
  from popup worker web ready opts active inWorker onWebPage show ?thesis
    by simp
qed

end
